theory Spec2Isabelle
  imports
    Complex_Main
    "HOL-Library.AList"
    "HOL-Library.Multiset"
    "HOL-Library.Char_ord"
    "HOL-Library.List_Lexorder"
begin

section \<open>JavaScript values\<close>

text \<open>
  The class \<^verbatim>\<open>MetricsTail\<close> and the function \<^verbatim>\<open>isValidMetric\<close> (the second of the
  three modules gathered in \<^verbatim>\<open>src/src/index.ts\<close>) receive diagnostics messages of type
  \<^verbatim>\<open>unknown\<close> and inspect them with \<^verbatim>\<open>typeof\<close> and \<^verbatim>\<open>in\<close>, so the model has a type of
  JavaScript values. An object is the list of its own enumerable
  properties in insertion order.

  A number is an IEEE double in the source: \<^verbatim>\<open>NaN\<close>, an infinity, or a finite value, here
  a \<open>real\<close> (both zeros are \<open>Finite 0\<close>). The code modelled here only tests numbers for
  truth, compares them, takes a minimum and multiplies by 1000; the rounding of that one
  product is not modelled.
\<close>

datatype number = NaN | NegInfinity | Finite real | Infinity

text \<open>The numbers that are falsy: \<^verbatim>\<open>NaN\<close> and zero.\<close>

fun falsy :: "number \<Rightarrow> bool" where
  "falsy NaN = True"
| "falsy (Finite x) = (x = 0)"
| "falsy v = False"

text \<open>\<^verbatim>\<open>Math.min(a, b)\<close>\<close>

fun Math_min :: "number \<Rightarrow> number \<Rightarrow> number" where
  "Math_min NaN b = NaN"
| "Math_min a NaN = NaN"
| "Math_min NegInfinity b = NegInfinity"
| "Math_min a NegInfinity = NegInfinity"
| "Math_min Infinity b = b"
| "Math_min a Infinity = a"
| "Math_min (Finite x) (Finite y) = Finite (min x y)"

text \<open>\<^verbatim>\<open>n >= b\<close> for a count \<open>n\<close>; a comparison with \<^verbatim>\<open>NaN\<close> is false.\<close>

fun count_ge :: "nat \<Rightarrow> number \<Rightarrow> bool" where
  "count_ge n NaN = False"
| "count_ge n NegInfinity = True"
| "count_ge n (Finite y) = (real n \<ge> y)"
| "count_ge n Infinity = False"

text \<open>\<^verbatim>\<open>a * 1000\<close>\<close>

fun times_1000 :: "number \<Rightarrow> number" where
  "times_1000 (Finite x) = Finite (x * 1000)"
| "times_1000 v = v"

datatype jsval =
    JUndefined
  | JNull
  | JBool bool
  | JNum number
  | JStr string
  | JArr "jsval list"
  | JObj "(string \<times> jsval) list"

type_synonym jsobject = "(string \<times> jsval) list"

fun typeof :: "jsval \<Rightarrow> string" where
  "typeof JUndefined = ''undefined''"
| "typeof JNull = ''object''"
| "typeof (JBool b) = ''boolean''"
| "typeof (JNum x) = ''number''"
| "typeof (JStr s) = ''string''"
| "typeof (JArr xs) = ''object''"
| "typeof (JObj fs) = ''object''"

definition digit :: "nat \<Rightarrow> char" where
  "digit d = ''0123456789'' ! d"

text \<open>Decimal rendering of a length or an array index, as template literals and
  property keys have it.\<close>

function string_of_nat :: "nat \<Rightarrow> string" where
  "string_of_nat n =
     (if n < 10 then [digit n] else string_of_nat (n div 10) @ [digit (n mod 10)])"
  by pat_completeness auto
termination
  by (relation "measure id") auto

declare string_of_nat.simps [simp del]

text \<open>The own enumerable string-keyed properties of a value, which is what an object
  spread copies: nothing for \<^verbatim>\<open>null\<close>, \<^verbatim>\<open>undefined\<close>, booleans and numbers, the indexed
  elements for an array or a string.\<close>

fun ownProps :: "jsval \<Rightarrow> jsobject" where
  "ownProps (JObj fs) = fs"
| "ownProps (JArr xs) = zip (map string_of_nat [0..<length xs]) xs"
| "ownProps (JStr s) = zip (map string_of_nat [0..<length s]) (map (\<lambda>c. JStr [c]) s)"
| "ownProps v = []"

text \<open>\<^verbatim>\<open>{...target, ...v}\<close>: every own property of \<open>v\<close> is assigned in turn; an existing
  key keeps its place and takes the new value, a new key is appended.\<close>

definition objectSpread :: "jsobject \<Rightarrow> jsval \<Rightarrow> jsobject" where
  "objectSpread target v = fold (\<lambda>(k, x). AList.update k x) (ownProps v) target"

text \<open>\<^verbatim>\<open>k in v\<close> for an object or an array (the source tests \<^verbatim>\<open>typeof v\<close> first, so it is
  never applied to a primitive). Inherited properties of \<^verbatim>\<open>Object.prototype\<close> and
  \<^verbatim>\<open>Array.prototype\<close> are left out: none of them is named type, name, value or tags.\<close>

fun js_in :: "string \<Rightarrow> jsval \<Rightarrow> bool" where
  "js_in k (JObj fs) = (k \<in> set (map fst fs))"
| "js_in k (JArr xs) = (k \<in> set (map string_of_nat [0..<length xs]) \<or> k = ''length'')"
| "js_in k v = False"

text \<open>Property read \<^verbatim>\<open>v.k\<close>; a missing property reads as \<^verbatim>\<open>undefined\<close>.\<close>

fun js_get :: "jsval \<Rightarrow> string \<Rightarrow> jsval" where
  "js_get (JObj fs) k = (case map_of fs k of Some x \<Rightarrow> x | None \<Rightarrow> JUndefined)"
| "js_get (JArr xs) k =
     (case map_of (ownProps (JArr xs)) k of
        Some x \<Rightarrow> x
      | None \<Rightarrow> if k = ''length'' then JNum (Finite (real (length xs))) else JUndefined)"
| "js_get v k = JUndefined"

text \<open>\<^verbatim>\<open>x || d\<close> for an optional number; \<open>None\<close> is \<^verbatim>\<open>undefined\<close> or \<^verbatim>\<open>null\<close>.\<close>

definition or_default :: "number option \<Rightarrow> number \<Rightarrow> number" where
  "or_default x d = (case x of None \<Rightarrow> d | Some v \<Rightarrow> if falsy v then d else v)"

text \<open>\<^verbatim>\<open>xs.join(sep)\<close> on strings.\<close>

fun join :: "string \<Rightarrow> string list \<Rightarrow> string" where
  "join sep [] = []"
| "join sep [x] = x"
| "join sep (x # y # ys) = x @ sep @ join sep (y # ys)"

section \<open>Names imported from modules outside the sources\<close>

text \<open>
  Modelled from the spec: the enum \<^verbatim>\<open>MetricType\<close> of \<^verbatim>\<open>./types\<close> is not among the
  sources. The spec gives its members as Count, Gauge and Histogram; the source names
  \<^verbatim>\<open>MetricType.COUNT\<close> and \<^verbatim>\<open>MetricType.HISTOGRAM\<close>, and the Datadog sink lower-cases
  \<^verbatim>\<open>payload.type\<close>, so the members are strings. \<open>MetricType_values\<close> is
  \<^verbatim>\<open>Object.values(MetricType)\<close>.
\<close>

datatype MetricType = COUNT | GAUGE | HISTOGRAM

fun MetricType_value :: "MetricType \<Rightarrow> jsval" where
  "MetricType_value COUNT = JStr ''COUNT''"
| "MetricType_value GAUGE = JStr ''GAUGE''"
| "MetricType_value HISTOGRAM = JStr ''HISTOGRAM''"

definition MetricType_values :: "jsval list" where
  "MetricType_values = map MetricType_value [COUNT, GAUGE, HISTOGRAM]"

section \<open>The validity check\<close>

text \<open>\<^verbatim>\<open>isValidMetric\<close>, test for test. \<^verbatim>\<open>Array.prototype.includes\<close> compares strings by
  equality.\<close>

definition isValidMetric :: "jsval \<Rightarrow> bool" where
  "isValidMetric message =
     (if message = JNull \<or> typeof message \<noteq> ''object'' \<or>
         \<not> js_in ''type'' message \<or> \<not> js_in ''name'' message \<or>
         \<not> js_in ''value'' message \<or> \<not> js_in ''tags'' message
      then False
      else if \<not> List.member MetricType_values (js_get message ''type'') then False
      else typeof (js_get message ''value'') = ''number'' \<and>
           typeof (js_get message ''name'') = ''string'' \<and>
           typeof (js_get message ''tags'') = ''object'')"

section \<open>The aggregation store\<close>

text \<open>
  Modelled from the spec: the class \<^verbatim>\<open>MetricsDb\<close> of \<^verbatim>\<open>./metricsDb\<close> is not among the
  sources; the tail calls its \<^verbatim>\<open>storeMetric\<close>, \<^verbatim>\<open>getMetricCount\<close>, \<^verbatim>\<open>toMetricPayloads\<close>
  and \<^verbatim>\<open>clearAll\<close>. The spec: the Aggregation Key is derived from the type, the name
  and the tags canonicalised by sorting their keys; the store holds at most one
  Aggregated Metric per key; an event with a new key inserts one, an event with a known
  key is combined into it; the count is the number of distinct keys; the export has one
  entry per Aggregated Metric; \<^verbatim>\<open>clearAll\<close> empties the store.

  How the values of one key combine (a sum for a count, the latest sample for a gauge,
  aggregates and percentiles for a histogram) is floating-point arithmetic and is not
  modelled: an Aggregated Metric keeps the events stored under its key, in arrival order,
  and an exported payload carries them as the samples its value fields are resolved from.
  The store's own refusal of a malformed event is not modelled either: the tail stores
  only its literal default metrics and messages that passed \<open>isValidMetric\<close>.
\<close>

type_synonym AggregationKey = "jsval \<times> jsval \<times> jsobject"

type_synonym MetricsDb = "(AggregationKey \<times> jsobject list) list"

type_synonym ExportedMetricPayload = "AggregationKey \<times> jsobject list"

definition new_MetricsDb :: MetricsDb where
  "new_MetricsDb = []"

definition aggregationKey :: "jsobject \<Rightarrow> AggregationKey" where
  "aggregationKey m =
     (js_get (JObj m) ''type'', js_get (JObj m) ''name'',
      sort_key fst (ownProps (js_get (JObj m) ''tags'')))"

definition storeMetric :: "jsobject \<Rightarrow> MetricsDb \<Rightarrow> MetricsDb" where
  "storeMetric m db =
     (case map_of db (aggregationKey m) of
        None \<Rightarrow> db @ [(aggregationKey m, [m])]
      | Some ms \<Rightarrow> AList.update (aggregationKey m) (ms @ [m]) db)"

definition getMetricCount :: "MetricsDb \<Rightarrow> nat" where
  "getMetricCount db = length db"

definition toMetricPayloads :: "MetricsDb \<Rightarrow> ExportedMetricPayload list" where
  "toMetricPayloads db = db"

definition clearAll :: "MetricsDb \<Rightarrow> MetricsDb" where
  "clearAll db = []"

text \<open>The events held by a store, and the events a list of exported payloads was
  resolved from.\<close>

definition samples :: "(AggregationKey \<times> jsobject list) list \<Rightarrow> jsobject list" where
  "samples ps = concat (map snd ps)"

section \<open>Traces, sinks and options\<close>

text \<open>
  The fields of a \<^verbatim>\<open>TraceItem\<close> (of \<^verbatim>\<open>@cloudflare/workers-types\<close>) that the tail reads.
  \<open>scriptVersion_id\<close> is \<^verbatim>\<open>traceItem.scriptVersion?.id\<close>. \<open>trigger\<close> is the value of
  \<^verbatim>\<open>getEventTrigger(traceItem)\<close>: that function, of \<^verbatim>\<open>./utils/cloudflare\<close>, is not among
  the sources, so what it returns comes with the trace.
\<close>

record DiagnosticsChannelEvent =
  channel :: string
  message :: jsval
  timestamp :: number

record TraceItem =
  scriptName :: "string option"
  executionModel :: string
  outcome :: string
  scriptVersion_id :: "string option"
  trigger :: jsval
  cpuTime :: number
  wallTime :: number
  eventTimestamp :: "number option"
  diagnosticsChannelEvents :: "DiagnosticsChannelEvent list"

text \<open>A thrown or rejection value: an \<^verbatim>\<open>Error\<close> with its message; any other value, with
  what \<^verbatim>\<open>String\<close> makes of it; or a value that cannot be made a string (an object without
  a prototype, say, or an \<^verbatim>\<open>Error\<close> with such a message), for which the conversion throws a
  \<^verbatim>\<open>TypeError\<close>.\<close>

datatype thrown = ErrorObj string | NonError string | Unprintable

definition conversion_TypeError :: thrown where
  "conversion_TypeError = ErrorObj ''Cannot convert object to primitive value''"

text \<open>
  What a call of a sink's \<^verbatim>\<open>sendMetrics(items)\<close> does: it returns a promise that is
  fulfilled or rejected (all an \<^verbatim>\<open>async\<close> method can do), or it throws before it returns
  a promise, which a method typed \<^verbatim>\<open>Promise<void>\<close> but not declared \<^verbatim>\<open>async\<close> can do.
\<close>

datatype sink_result = Fulfilled | Rejected thrown | Throws thrown

type_synonym MetricSink = "ExportedMetricPayload list \<Rightarrow> sink_result"

datatype console_line =
    ConsoleWarn string jsval
  | ConsoleError string
  | ConsoleErrorWith string thrown

text \<open>\<^verbatim>\<open>MetricTailOptions\<close>; an optional field is an \<open>option\<close>. The private fields of
  the class take the plain names below, the options are prefixed.\<close>

record DefaultMetricsOptions =
  opt_cpuTime :: "bool option"
  opt_wallTime :: "bool option"
  opt_workersInvocation :: "bool option"

record MetricTailOptions =
  opt_sinks :: "MetricSink list"
  opt_defaultMetrics :: "DefaultMetricsOptions option"
  opt_maxBufferSize :: "number option"
  opt_maxBufferDuration :: "number option"

record DefaultMetricsEnabled =
  cpuTime_enabled :: bool
  wallTime_enabled :: bool
  workersInvocation_enabled :: bool

section \<open>The tail and its host\<close>

text \<open>
  The private fields of \<^verbatim>\<open>MetricsTail\<close>, followed by what the host holds around the
  object: \<open>timers\<close>, the \<^verbatim>\<open>scheduleFlush\<close> calls suspended at
  \<^verbatim>\<open>await scheduler.wait(...)\<close>, each with its \<^verbatim>\<open>localFlushId\<close> and its delay in
  milliseconds; \<open>console\<close>, the lines written; \<open>sendMetrics_calls\<close>, every call of a sink's
  \<^verbatim>\<open>sendMetrics\<close> with the index of the sink in \<^verbatim>\<open>#metricSinks\<close> and its argument; and
  \<open>flushes\<close>, the snapshot taken by each run of \<^verbatim>\<open>#performFlush\<close>. \<^verbatim>\<open>#flushId\<close> is a
  JavaScript number counting up from 0 by ones; it is a \<open>nat\<close> here (a double stops
  counting at \<open>2 ^ 53\<close>).
\<close>

record MetricsTail =
  metricSinks :: "MetricSink list"
  maxBufferSize :: number
  maxBufferDuration :: number
  flushId :: nat
  metrics :: MetricsDb
  flushScheduled :: bool
  defaultMetricsEnabled :: DefaultMetricsEnabled
  timers :: "(nat \<times> number) list"
  console :: "console_line list"
  sendMetrics_calls :: "(nat \<times> ExportedMetricPayload list) list"
  flushes :: "ExportedMetricPayload list list"

text \<open>\<^verbatim>\<open>options.defaultMetrics?.f !== false\<close>\<close>

definition not_false :: "DefaultMetricsOptions option \<Rightarrow> (DefaultMetricsOptions \<Rightarrow> bool option) \<Rightarrow> bool" where
  "not_false dm f = (case dm of None \<Rightarrow> True | Some d \<Rightarrow> f d \<noteq> Some False)"

text \<open>The constructor, in a host with no timer pending and nothing logged.\<close>

definition new_MetricsTail :: "MetricTailOptions \<Rightarrow> MetricsTail" where
  "new_MetricsTail options =
     \<lparr> metricSinks = opt_sinks options,
       maxBufferSize = or_default (opt_maxBufferSize options) (Finite 100),
       maxBufferDuration = Math_min (or_default (opt_maxBufferDuration options) (Finite 5)) (Finite 30),
       flushId = 0,
       metrics = new_MetricsDb,
       flushScheduled = False,
       defaultMetricsEnabled =
         \<lparr> cpuTime_enabled = not_false (opt_defaultMetrics options) opt_cpuTime,
           wallTime_enabled = not_false (opt_defaultMetrics options) opt_wallTime,
           workersInvocation_enabled = not_false (opt_defaultMetrics options) opt_workersInvocation \<rparr>,
       timers = [],
       console = [],
       sendMetrics_calls = [],
       flushes = [] \<rparr>"

section \<open>Flushing\<close>

text \<open>
  \<^verbatim>\<open>this.#metricSinks.map((sink) => sink.sendMetrics(items))\<close>: the sinks are called in
  order; a call that throws ends the \<^verbatim>\<open>map\<close>. The result is the number of calls made, the
  outcomes of the promises obtained, and the value thrown, if any.
\<close>

fun callSinks :: "MetricSink list \<Rightarrow> ExportedMetricPayload list \<Rightarrow> nat \<times> sink_result list \<times> thrown option" where
  "callSinks [] items = (0, [], None)"
| "callSinks (sink # sinks) items =
     (case sink items of
        Throws e \<Rightarrow> (1, [], Some e)
      | r \<Rightarrow> (case callSinks sinks items of (n, rs, t) \<Rightarrow> (Suc n, r # rs, t)))"

fun is_rejected :: "sink_result \<Rightarrow> bool" where
  "is_rejected (Rejected e) = True"
| "is_rejected r = False"

text \<open>The template
  \<^verbatim>\<open>${error.reason instanceof Error ? error.reason.message : String(error.reason)}\<close>;
  \<open>None\<close> when it throws.\<close>

fun reason_text :: "thrown \<Rightarrow> string option" where
  "reason_text (ErrorObj msg) = Some msg"
| "reason_text (NonError str) = Some str"
| "reason_text Unprintable = None"

fun rejection :: "sink_result \<Rightarrow> thrown list" where
  "rejection (Rejected e) = [e]"
| "rejection r = []"

text \<open>\<^verbatim>\<open>errors.map(...)\<close> over the reasons: the texts, or \<open>None\<close> when one of the
  conversions throws.\<close>

fun sinkErrors :: "thrown list \<Rightarrow> string list option" where
  "sinkErrors [] = Some []"
| "sinkErrors (e # es) =
     (case reason_text e of
        None \<Rightarrow> None
      | Some text \<Rightarrow> (case sinkErrors es of None \<Rightarrow> None | Some texts \<Rightarrow> Some (text # texts)))"

definition failed_to_flush :: "nat \<Rightarrow> string list \<Rightarrow> string" where
  "failed_to_flush n texts =
     ''Failed to flush metrics to '' @ string_of_nat n @ '' sink(s): '' @ join '', '' texts"

text \<open>
  \<^verbatim>\<open>#performFlush\<close>. From the snapshot to the calls of the sinks the method has no
  \<^verbatim>\<open>await\<close>, so all of it runs in one turn. What follows the one
  \<^verbatim>\<open>await Promise.allSettled(...)\<close> reads no field of the object and only writes to the
  console, so the model runs it at once: only the place of that line among the console's
  lines can differ. When a sink throws, the promises already obtained are abandoned; what
  the host does with one of them that is rejected later is not modelled.
\<close>

definition performFlush :: "MetricsTail \<Rightarrow> MetricsTail" where
  "performFlush this =
     (let items = toMetricPayloads (metrics this);
          this1 = this\<lparr> flushScheduled := False,
                        metrics := clearAll (metrics this),
                        flushes := flushes this @ [items] \<rparr>
      in if length items = 0 then this1
         else
           (case callSinks (metricSinks this1) items of
              (n, results, Some error) \<Rightarrow>
                this1\<lparr> sendMetrics_calls := sendMetrics_calls this1 @ map (\<lambda>i. (i, items)) [0..<n],
                       console := console this1 @ [ConsoleErrorWith ''Error flushing batch:'' error] \<rparr>
            | (n, results, None) \<Rightarrow>
                (let errors = filter is_rejected results;
                     this2 = this1\<lparr> sendMetrics_calls :=
                                      sendMetrics_calls this1 @ map (\<lambda>i. (i, items)) [0..<n] \<rparr>
                 in if length errors > 0
                    then (case sinkErrors (concat (map rejection errors)) of
                            Some texts \<Rightarrow>
                              this2\<lparr> console := console this2 @
                                       [ConsoleError (failed_to_flush (length errors) texts)] \<rparr>
                          | None \<Rightarrow>
                              this2\<lparr> console := console this2 @
                                       [ConsoleErrorWith ''Error flushing batch:''
                                          conversion_TypeError] \<rparr>)
                    else this2)))"

section \<open>Ingestion and scheduling\<close>

definition globalTags :: "TraceItem \<Rightarrow> jsobject" where
  "globalTags traceItem =
     [(''scriptName'', case scriptName traceItem of None \<Rightarrow> JNull | Some s \<Rightarrow> JStr s),
      (''executionModel'', JStr (executionModel traceItem)),
      (''outcome'', JStr (outcome traceItem)),
      (''versionId'', case scriptVersion_id traceItem of None \<Rightarrow> JUndefined | Some s \<Rightarrow> JStr s),
      (''trigger'', trigger traceItem)]"

definition histogram_options :: jsval where
  "histogram_options =
     JObj [(''aggregates'', JArr [JStr ''max'', JStr ''min'', JStr ''avg'']),
           (''percentiles'', JArr [JNum (Finite 0.5), JNum (Finite 0.75), JNum (Finite 0.9), JNum (Finite 0.95),
                 JNum (Finite 0.99)])]"

text \<open>\<^verbatim>\<open>#addDefaultMetrics\<close>; \<open>now\<close> is what \<^verbatim>\<open>Date.now()\<close> returns.\<close>

definition addDefaultMetrics :: "number \<Rightarrow> TraceItem \<Rightarrow> jsobject \<Rightarrow> MetricsTail \<Rightarrow> MetricsTail" where
  "addDefaultMetrics now traceItem tags this =
     (let ts = JNum (or_default (eventTimestamp traceItem) now);
          this1 =
            (if cpuTime_enabled (defaultMetricsEnabled this)
             then this\<lparr> metrics := storeMetric
                    [(''type'', MetricType_value HISTOGRAM), (''name'', JStr ''worker.cpu_time''),
                     (''value'', JNum (cpuTime traceItem)), (''tags'', JObj tags),
                     (''timestamp'', ts), (''options'', histogram_options)] (metrics this) \<rparr>
             else this);
          this2 =
            (if wallTime_enabled (defaultMetricsEnabled this1)
             then this1\<lparr> metrics := storeMetric
                    [(''type'', MetricType_value HISTOGRAM), (''name'', JStr ''worker.wall_time''),
                     (''value'', JNum (wallTime traceItem)), (''tags'', JObj tags),
                     (''timestamp'', ts), (''options'', histogram_options)] (metrics this1) \<rparr>
             else this1)
      in if workersInvocation_enabled (defaultMetricsEnabled this2)
         then this2\<lparr> metrics := storeMetric
                [(''type'', MetricType_value COUNT), (''name'', JStr ''worker.invocation''),
                 (''value'', JNum (Finite 1)), (''tags'', JObj tags), (''timestamp'', ts)] (metrics this2) \<rparr>
         else this2)"

text \<open>The object literal
  \<^verbatim>\<open>{...message, tags: {...globalTags, ...message.tags}, timestamp: event.timestamp}\<close>.\<close>

definition storedMetric :: "jsobject \<Rightarrow> DiagnosticsChannelEvent \<Rightarrow> jsobject" where
  "storedMetric tags event =
     AList.update ''timestamp'' (JNum (timestamp event))
       (AList.update ''tags''
          (JObj (objectSpread (objectSpread [] (JObj tags)) (js_get (message event) ''tags'')))
          (objectSpread [] (message event)))"

text \<open>The body of the loop over \<^verbatim>\<open>metricEvents\<close>.\<close>

definition storeEvent :: "jsobject \<Rightarrow> DiagnosticsChannelEvent \<Rightarrow> MetricsTail \<Rightarrow> MetricsTail" where
  "storeEvent tags event this =
     (if isValidMetric (message event)
      then this\<lparr> metrics := storeMetric (storedMetric tags event) (metrics this) \<rparr>
      else this\<lparr> console := console this @
                   [ConsoleWarn ''Received invalid metric payload:'' (message event)] \<rparr>)"

text \<open>The body of the loop over \<^verbatim>\<open>traceItems\<close>. \<open>METRICS_CHANNEL_NAME\<close> is a constant of
  \<^verbatim>\<open>./types\<close>, not among the sources; it is a parameter.\<close>

definition processTraceItem :: "string \<Rightarrow> number \<Rightarrow> TraceItem \<Rightarrow> MetricsTail \<Rightarrow> MetricsTail" where
  "processTraceItem METRICS_CHANNEL_NAME now traceItem this =
     (let metricEvents =
            filter (\<lambda>el. channel el = METRICS_CHANNEL_NAME) (diagnosticsChannelEvents traceItem);
          tags = globalTags traceItem
      in fold (storeEvent tags) metricEvents (addDefaultMetrics now traceItem tags this))"

definition ingest :: "string \<Rightarrow> number \<Rightarrow> TraceItem list \<Rightarrow> MetricsTail \<Rightarrow> MetricsTail" where
  "ingest METRICS_CHANNEL_NAME now traceItems this =
     fold (processTraceItem METRICS_CHANNEL_NAME now) traceItems this"

text \<open>The call \<^verbatim>\<open>scheduleFlush()\<close> up to its \<^verbatim>\<open>await\<close>: an \<^verbatim>\<open>async\<close> function runs on
  the caller's turn until it first awaits, so \<^verbatim>\<open>++this.#flushId\<close> happens inside
  \<^verbatim>\<open>processTraceItems\<close>.\<close>

definition scheduleFlush :: "MetricsTail \<Rightarrow> MetricsTail" where
  "scheduleFlush this =
     (let localFlushId = flushId this + 1
      in this\<lparr> flushId := localFlushId,
               timers := timers this @ [(localFlushId, times_1000 (maxBufferDuration this))] \<rparr>)"

text \<open>\<^verbatim>\<open>processTraceItems\<close>. \<^verbatim>\<open>ctx.waitUntil\<close> only keeps the host alive and is not
  modelled.\<close>

definition processTraceItems :: "string \<Rightarrow> number \<Rightarrow> TraceItem list \<Rightarrow> MetricsTail \<Rightarrow> MetricsTail" where
  "processTraceItems METRICS_CHANNEL_NAME now traceItems this0 =
     (let this = ingest METRICS_CHANNEL_NAME now traceItems this0
      in if count_ge (getMetricCount (metrics this)) (maxBufferSize this)
         then performFlush
                ((if flushScheduled this then this\<lparr> flushScheduled := False \<rparr> else this)
                   \<lparr> flushId := flushId this + 1 \<rparr>)
         else if flushScheduled this then this
         else if getMetricCount (metrics this) > 0
         then scheduleFlush (this\<lparr> flushScheduled := True \<rparr>)
         else this)"

text \<open>The rest of a \<^verbatim>\<open>scheduleFlush\<close> call whose \<^verbatim>\<open>localFlushId\<close> is \<open>g\<close>, when its wait
  is over.\<close>

definition timerCompletes :: "nat \<Rightarrow> MetricsTail \<Rightarrow> MetricsTail" where
  "timerCompletes g this =
     (let this1 = this\<lparr> timers := filter (\<lambda>t. fst t \<noteq> g) (timers this) \<rparr>
      in if g = flushId this1 then performFlush this1 else this1)"

text \<open>The same call when \<^verbatim>\<open>scheduler.wait\<close> rejects: \<^verbatim>\<open>catch (error) {}\<close>.\<close>

definition timerRejects :: "nat \<Rightarrow> MetricsTail \<Rightarrow> MetricsTail" where
  "timerRejects g this = this\<lparr> timers := filter (\<lambda>t. fst t \<noteq> g) (timers this) \<rparr>"

text \<open>What can happen to a tail: a call of \<^verbatim>\<open>processTraceItems\<close> (with the clock's
  reading), or a pending timer's wait ending. Turns do not overlap: the host runs one
  at a time.\<close>

datatype event =
    ProcessTraceItems "TraceItem list" number
  | TimerCompletes nat
  | TimerRejects nat

fun step :: "string \<Rightarrow> event \<Rightarrow> MetricsTail \<Rightarrow> MetricsTail" where
  "step chan (ProcessTraceItems traceItems now) this = processTraceItems chan now traceItems this"
| "step chan (TimerCompletes g) this =
     (if g \<in> set (map fst (timers this)) then timerCompletes g this else this)"
| "step chan (TimerRejects g) this =
     (if g \<in> set (map fst (timers this)) then timerRejects g this else this)"

definition run :: "string \<Rightarrow> event list \<Rightarrow> MetricsTail \<Rightarrow> MetricsTail" where
  "run chan events this = fold (step chan) events this"

section \<open>Vocabulary of the properties\<close>

text \<open>The test \<^verbatim>\<open>getMetricCount() >= this.#maxBufferSize\<close> as \<^verbatim>\<open>processTraceItems\<close>
  makes it: on the store as the batch leaves it.\<close>

definition sizeTrigger :: "string \<Rightarrow> number \<Rightarrow> TraceItem list \<Rightarrow> MetricsTail \<Rightarrow> bool" where
  "sizeTrigger chan now traceItems this0 =
     (let this = ingest chan now traceItems this0
      in count_ge (getMetricCount (metrics this)) (maxBufferSize this))"

text \<open>No call of \<^verbatim>\<open>processTraceItems\<close> in a sequence of events reaches the size
  threshold.\<close>

fun noSizeTrigger :: "string \<Rightarrow> event list \<Rightarrow> MetricsTail \<Rightarrow> bool" where
  "noSizeTrigger chan [] this = True"
| "noSizeTrigger chan (ProcessTraceItems traceItems now # es) this =
     (\<not> sizeTrigger chan now traceItems this \<and>
      noSizeTrigger chan es (step chan (ProcessTraceItems traceItems now) this))"
| "noSizeTrigger chan (e # es) this = noSizeTrigger chan es (step chan e this)"

text \<open>Two invariants of the pending timers: none was armed for a generation above the
  live one and no two for the same; and, as long as no size trigger has fired, there is
  at most one, armed for the live generation.\<close>

definition timers_ok :: "MetricsTail \<Rightarrow> bool" where
  "timers_ok this =
     (list_all (\<lambda>t. fst t \<le> flushId this) (timers this) \<and> distinct (map fst (timers this)))"

definition one_timer :: "MetricsTail \<Rightarrow> bool" where
  "one_timer this =
     (case timers this of
        [] \<Rightarrow> True
      | [t] \<Rightarrow> flushScheduled this \<and> fst t = flushId this
      | _ \<Rightarrow> False)"

text \<open>The events in the store, the events in the snapshots of all flushes so far, the
  events one call of \<^verbatim>\<open>processTraceItems\<close> hands to \<^verbatim>\<open>storeMetric\<close> (what its loops put
  into an empty store), and the events a sequence of calls hands over.\<close>

definition stored :: "MetricsTail \<Rightarrow> jsobject multiset" where
  "stored this = mset (samples (metrics this))"

definition flushed :: "MetricsTail \<Rightarrow> jsobject multiset" where
  "flushed this = mset (concat (map samples (flushes this)))"

definition batch :: "string \<Rightarrow> number \<Rightarrow> TraceItem list \<Rightarrow> MetricsTail \<Rightarrow> jsobject multiset" where
  "batch chan now traceItems this =
     stored (ingest chan now traceItems (this\<lparr> metrics := new_MetricsDb \<rparr>))"

fun ingested :: "string \<Rightarrow> event list \<Rightarrow> MetricsTail \<Rightarrow> jsobject multiset" where
  "ingested chan [] this = {#}"
| "ingested chan (ProcessTraceItems traceItems now # es) this =
     batch chan now traceItems this +
     ingested chan es (step chan (ProcessTraceItems traceItems now) this)"
| "ingested chan (e # es) this = ingested chan es (step chan e this)"

section \<open>Example inputs\<close>

text \<open>A count metric named \<open>n\<close> with tags \<open>t\<close>; a trace carrying the given messages on
  the channel \<open>''metrics''\<close>; options with a buffer of two metrics, the default metrics
  switched off and the given sinks; the tail after one call that stored one metric and
  scheduled a flush; and an event whose own tags collide with a trace tag.\<close>

definition ex_now :: number where
  "ex_now = Finite 0"

definition ex_message :: "string \<Rightarrow> jsval \<Rightarrow> jsval" where
  "ex_message n t =
     JObj [(''type'', JStr ''COUNT''), (''name'', JStr n), (''value'', JNum (Finite 1)), (''tags'', t)]"

definition ex_trace :: "jsval list \<Rightarrow> TraceItem" where
  "ex_trace ms =
     \<lparr> scriptName = Some ''worker'', executionModel = ''stateless'', outcome = ''ok'',
       scriptVersion_id = None, trigger = JStr ''GET'', cpuTime = Finite 1, wallTime = Finite 2,
       eventTimestamp = Some (Finite 5),
       diagnosticsChannelEvents =
         map (\<lambda>m. \<lparr> channel = ''metrics'', message = m, timestamp = Finite 7 \<rparr>) ms \<rparr>"

definition ex_options :: "MetricSink list \<Rightarrow> MetricTailOptions" where
  "ex_options sinks =
     \<lparr> opt_sinks = sinks,
       opt_defaultMetrics = Some \<lparr> opt_cpuTime = Some False, opt_wallTime = Some False,
                                  opt_workersInvocation = Some False \<rparr>,
       opt_maxBufferSize = Some (Finite 2), opt_maxBufferDuration = None \<rparr>"

definition ex_scheduled :: "MetricSink list \<Rightarrow> MetricsTail" where
  "ex_scheduled sinks =
     run ''metrics'' [ProcessTraceItems [ex_trace [ex_message ''a'' JNull]] ex_now]
       (new_MetricsTail (ex_options sinks))"

definition ex_event :: DiagnosticsChannelEvent where
  "ex_event =
     \<lparr> channel = ''metrics'',
       message = ex_message ''a'' (JObj [(''outcome'', JStr ''mine''), (''route'', JStr ''/'')]),
       timestamp = Finite 7 \<rparr>"

section \<open>What each operation leaves alone\<close>

lemma callSinks_le: "callSinks sinks items = (n, rs, t) \<Longrightarrow> n \<le> length sinks"
  by (induction sinks arbitrary: n rs t) (auto split: sink_result.splits prod.splits)

lemma performFlush_frame:
  "flushId (performFlush this) = flushId this"
  "timers (performFlush this) = timers this"
  "metrics (performFlush this) = new_MetricsDb"
  "flushScheduled (performFlush this) = False"
  "flushes (performFlush this) = flushes this @ [toMetricPayloads (metrics this)]"
  "metricSinks (performFlush this) = metricSinks this"
  "maxBufferSize (performFlush this) = maxBufferSize this"
  "maxBufferDuration (performFlush this) = maxBufferDuration this"
  "defaultMetricsEnabled (performFlush this) = defaultMetricsEnabled this"
  by (auto simp: performFlush_def Let_def clearAll_def new_MetricsDb_def
           split: prod.splits option.splits)

lemma addDefaultMetrics_frame:
  "flushId (addDefaultMetrics now t tags this) = flushId this"
  "timers (addDefaultMetrics now t tags this) = timers this"
  "flushScheduled (addDefaultMetrics now t tags this) = flushScheduled this"
  "flushes (addDefaultMetrics now t tags this) = flushes this"
  "sendMetrics_calls (addDefaultMetrics now t tags this) = sendMetrics_calls this"
  "console (addDefaultMetrics now t tags this) = console this"
  "metricSinks (addDefaultMetrics now t tags this) = metricSinks this"
  "maxBufferSize (addDefaultMetrics now t tags this) = maxBufferSize this"
  "maxBufferDuration (addDefaultMetrics now t tags this) = maxBufferDuration this"
  "defaultMetricsEnabled (addDefaultMetrics now t tags this) = defaultMetricsEnabled this"
  by (simp_all add: addDefaultMetrics_def Let_def)

lemma storeEvent_frame:
  "flushId (storeEvent tags e this) = flushId this"
  "timers (storeEvent tags e this) = timers this"
  "flushScheduled (storeEvent tags e this) = flushScheduled this"
  "flushes (storeEvent tags e this) = flushes this"
  "sendMetrics_calls (storeEvent tags e this) = sendMetrics_calls this"
  "metricSinks (storeEvent tags e this) = metricSinks this"
  "maxBufferSize (storeEvent tags e this) = maxBufferSize this"
  "maxBufferDuration (storeEvent tags e this) = maxBufferDuration this"
  "defaultMetricsEnabled (storeEvent tags e this) = defaultMetricsEnabled this"
  by (simp_all add: storeEvent_def)

lemma fold_storeEvent_frame:
  "flushId (fold (storeEvent tags) es this) = flushId this"
  "timers (fold (storeEvent tags) es this) = timers this"
  "flushScheduled (fold (storeEvent tags) es this) = flushScheduled this"
  "flushes (fold (storeEvent tags) es this) = flushes this"
  "sendMetrics_calls (fold (storeEvent tags) es this) = sendMetrics_calls this"
  "metricSinks (fold (storeEvent tags) es this) = metricSinks this"
  "maxBufferSize (fold (storeEvent tags) es this) = maxBufferSize this"
  "maxBufferDuration (fold (storeEvent tags) es this) = maxBufferDuration this"
  "defaultMetricsEnabled (fold (storeEvent tags) es this) = defaultMetricsEnabled this"
  by (induction es arbitrary: this; simp add: storeEvent_frame)+

lemma processTraceItem_frame:
  "flushId (processTraceItem chan now t this) = flushId this"
  "timers (processTraceItem chan now t this) = timers this"
  "flushScheduled (processTraceItem chan now t this) = flushScheduled this"
  "flushes (processTraceItem chan now t this) = flushes this"
  "sendMetrics_calls (processTraceItem chan now t this) = sendMetrics_calls this"
  "metricSinks (processTraceItem chan now t this) = metricSinks this"
  "maxBufferSize (processTraceItem chan now t this) = maxBufferSize this"
  "maxBufferDuration (processTraceItem chan now t this) = maxBufferDuration this"
  "defaultMetricsEnabled (processTraceItem chan now t this) = defaultMetricsEnabled this"
  by (simp_all add: processTraceItem_def Let_def fold_storeEvent_frame addDefaultMetrics_frame)

lemma ingest_frame:
  "flushId (ingest chan now ts this) = flushId this"
  "timers (ingest chan now ts this) = timers this"
  "flushScheduled (ingest chan now ts this) = flushScheduled this"
  "flushes (ingest chan now ts this) = flushes this"
  "sendMetrics_calls (ingest chan now ts this) = sendMetrics_calls this"
  "metricSinks (ingest chan now ts this) = metricSinks this"
  "maxBufferSize (ingest chan now ts this) = maxBufferSize this"
  "maxBufferDuration (ingest chan now ts this) = maxBufferDuration this"
  "defaultMetricsEnabled (ingest chan now ts this) = defaultMetricsEnabled this"
  unfolding ingest_def
  by (induction ts arbitrary: this; simp add: processTraceItem_frame)+

section \<open>The generation and the timers, operation by operation\<close>

lemma processTraceItems_flushId:
  "flushId (processTraceItems chan now items this) =
     (if sizeTrigger chan now items this \<or>
         (\<not> flushScheduled this \<and> 0 < getMetricCount (metrics (ingest chan now items this)))
      then flushId this + 1 else flushId this)"
  by (simp add: processTraceItems_def sizeTrigger_def Let_def performFlush_frame ingest_frame
        scheduleFlush_def)

lemma timerCompletes_flushId: "flushId (timerCompletes g this) = flushId this"
  by (simp add: timerCompletes_def Let_def performFlush_frame)

lemma timerRejects_flushId: "flushId (timerRejects g this) = flushId this"
  by (simp add: timerRejects_def)

lemma step_flushId_mono: "flushId this \<le> flushId (step chan e this)"
  by (cases e)
     (simp_all add: processTraceItems_flushId timerCompletes_flushId timerRejects_flushId)

lemma run_flushId_mono: "flushId this \<le> flushId (run chan es this)"
  unfolding run_def
proof (induction es arbitrary: this)
  case Nil
  show ?case by simp
next
  case (Cons e es)
  have "flushId this \<le> flushId (step chan e this)" by (rule step_flushId_mono)
  also have "\<dots> \<le> flushId (fold (step chan) es (step chan e this))" by (rule Cons.IH)
  finally show ?case by simp
qed

lemma processTraceItems_timers:
  "timers (processTraceItems chan now items this) =
     (if \<not> sizeTrigger chan now items this \<and> \<not> flushScheduled this \<and>
         0 < getMetricCount (metrics (ingest chan now items this))
      then timers this @ [(flushId this + 1, times_1000 (maxBufferDuration this))]
      else timers this)"
  by (simp add: processTraceItems_def sizeTrigger_def Let_def performFlush_frame ingest_frame
        scheduleFlush_def)

lemma processTraceItems_flushScheduled:
  "flushScheduled (processTraceItems chan now items this) =
     (\<not> sizeTrigger chan now items this \<and>
      (flushScheduled this \<or> 0 < getMetricCount (metrics (ingest chan now items this))))"
  by (auto simp add: processTraceItems_def sizeTrigger_def Let_def performFlush_frame
        ingest_frame scheduleFlush_def)

lemma processTraceItems_trigger:
  assumes "sizeTrigger chan now items this"
  shows "processTraceItems chan now items this =
     performFlush
       ((ingest chan now items this)\<lparr> flushScheduled := False, flushId := flushId this + 1 \<rparr>)"
proof -
  have idle: "x\<lparr> flushScheduled := False \<rparr> = x" if "\<not> flushScheduled x" for x :: MetricsTail
    using that by (cases x) simp
  from assms show ?thesis
    by (cases "flushScheduled this")
       (simp_all add: processTraceItems_def sizeTrigger_def Let_def ingest_frame idle)
qed

lemma timers_ok_step: "timers_ok this \<Longrightarrow> timers_ok (step chan e this)"
proof (cases e)
  case (ProcessTraceItems items now)
  assume "timers_ok this"
  then have "\<forall>t\<in>set (timers this). fst t \<le> flushId this" "distinct (map fst (timers this))"
    by (simp_all add: timers_ok_def list_all_iff)
  then show ?thesis
    unfolding ProcessTraceItems timers_ok_def list_all_iff
    by (auto simp: processTraceItems_timers processTraceItems_flushId)
next
  case (TimerCompletes g)
  assume "timers_ok this"
  then show ?thesis
    unfolding TimerCompletes timers_ok_def list_all_iff
    by (auto simp: timerCompletes_def Let_def performFlush_frame distinct_map_filter)
next
  case (TimerRejects g)
  assume "timers_ok this"
  then show ?thesis
    unfolding TimerRejects timers_ok_def list_all_iff
    by (auto simp: timerRejects_def distinct_map_filter)
qed

lemma timers_ok_run: "timers_ok this \<Longrightarrow> timers_ok (run chan es this)"
  unfolding run_def
  by (induction es arbitrary: this) (simp_all add: timers_ok_step)

lemma timers_ok_new: "timers_ok (new_MetricsTail options)"
  by (simp add: timers_ok_def new_MetricsTail_def)

section \<open>The example inputs, evaluated\<close>

lemmas ex_eval =
  run_def processTraceItems_def ingest_def processTraceItem_def
  addDefaultMetrics_def storeEvent_def isValidMetric_def MetricType_values_def
  storeMetric_def getMetricCount_def new_MetricsTail_def ex_options_def ex_trace_def
  ex_message_def ex_now_def new_MetricsDb_def not_false_def or_default_def scheduleFlush_def
  Let_def   aggregationKey_def storedMetric_def objectSpread_def sizeTrigger_def

lemma ex_scheduled_timers: "timers (ex_scheduled sinks) = [(1, Finite 5000)]"
  by (simp add: ex_scheduled_def ex_eval)

lemma ex_scheduled_state:
  "flushId (ex_scheduled sinks) = 1 \<and> flushScheduled (ex_scheduled sinks) \<and>
   getMetricCount (metrics (ex_scheduled sinks)) = 1"
  by (simp add: ex_scheduled_def ex_eval)

lemma ex_scheduled_host:
  "metricSinks (ex_scheduled sinks) = sinks" "sendMetrics_calls (ex_scheduled sinks) = []"
  "console (ex_scheduled sinks) = []" "flushes (ex_scheduled sinks) = []"
  by (simp_all add: ex_scheduled_def ex_eval)

lemma ex_second_metric_triggers:
  "sizeTrigger ''metrics'' ex_now [ex_trace [ex_message ''b'' JNull]] (ex_scheduled sinks)"
  by (simp add: ex_scheduled_def ex_eval)

lemma ex_same_metric_coalesces:
  "\<not> sizeTrigger ''metrics'' ex_now [ex_trace [ex_message ''a'' JNull]] (ex_scheduled sinks)"
  by (simp add: ex_scheduled_def ex_eval)

lemma ex_items_nonempty: "toMetricPayloads (metrics (ex_scheduled sinks)) \<noteq> []"
  using ex_scheduled_state [of sinks] by (auto simp: getMetricCount_def toMetricPayloads_def)

lemma string_of_nat_1: "string_of_nat (Suc 0) = ''1''"
  by (simp add: string_of_nat.simps digit_def)

section \<open>The generation race\<close>

text \<open>
  Claim C1. A scheduled flush captured the generation \<open>g\<close> and its timer is pending in a
  tail reached from the constructor. A call of \<^verbatim>\<open>processTraceItems\<close> then reaches the size
  threshold and flushes at once. Whatever happens afterwards, when the timer of \<open>g\<close>
  completes its generation is no longer the live one and it does nothing: no snapshot is
  taken, no sink is called, and the store, the console, the generation and the flag stay
  as they were.
\<close>

theorem generation_race_no_second_flush:
  assumes reach: "this = run chan before (new_MetricsTail options)"
    and pending: "g \<in> set (map fst (timers this))"
    and size: "sizeTrigger chan now items this"
    and later: "after = run chan later (processTraceItems chan now items this)"
  shows "g \<noteq> flushId after \<and>
         flushes (step chan (TimerCompletes g) after) = flushes after \<and>
         sendMetrics_calls (step chan (TimerCompletes g) after) = sendMetrics_calls after \<and>
         metrics (step chan (TimerCompletes g) after) = metrics after \<and>
         console (step chan (TimerCompletes g) after) = console after \<and>
         flushId (step chan (TimerCompletes g) after) = flushId after \<and>
         flushScheduled (step chan (TimerCompletes g) after) = flushScheduled after"
proof -
  have "timers_ok this"
    unfolding reach by (rule timers_ok_run) (rule timers_ok_new)
  with pending have "g \<le> flushId this"
    by (auto simp: timers_ok_def list_all_iff)
  moreover have "flushId (processTraceItems chan now items this) = flushId this + 1"
    using size by (simp add: processTraceItems_flushId)
  moreover have "flushId (processTraceItems chan now items this) \<le> flushId after"
    unfolding later by (rule run_flushId_mono)
  ultimately have stale: "g \<noteq> flushId after" by simp
  then show ?thesis
    by (simp add: timerCompletes_def Let_def)
qed

text \<open>The race on the example: the first metric schedules a flush for generation 1, the
  second fills the buffer of two and flushes at once, then the timer completes.\<close>

theorem generation_race_no_second_flush_witness:
  "1 \<in> set (map fst (timers (ex_scheduled [\<lambda>items. Fulfilled]))) \<and>
   sizeTrigger ''metrics'' ex_now [ex_trace [ex_message ''b'' JNull]] (ex_scheduled [\<lambda>items. Fulfilled]) \<and>
   1 \<noteq> flushId (processTraceItems ''metrics'' ex_now [ex_trace [ex_message ''b'' JNull]]
          (ex_scheduled [\<lambda>items. Fulfilled])) \<and>
   sendMetrics_calls (step ''metrics'' (TimerCompletes 1)
       (processTraceItems ''metrics'' ex_now [ex_trace [ex_message ''b'' JNull]]
          (ex_scheduled [\<lambda>items. Fulfilled]))) =
     sendMetrics_calls (processTraceItems ''metrics'' ex_now [ex_trace [ex_message ''b'' JNull]]
          (ex_scheduled [\<lambda>items. Fulfilled]))"
proof -
  have p: "1 \<in> set (map fst (timers (ex_scheduled [\<lambda>items. Fulfilled])))"
    by (simp add: ex_scheduled_timers)
  have s: "sizeTrigger ''metrics'' ex_now [ex_trace [ex_message ''b'' JNull]]
      (ex_scheduled [\<lambda>items. Fulfilled])"
    by (rule ex_second_metric_triggers)
  have r: "processTraceItems ''metrics'' ex_now [ex_trace [ex_message ''b'' JNull]]
        (ex_scheduled [\<lambda>items. Fulfilled]) =
      run ''metrics'' [] (processTraceItems ''metrics'' ex_now [ex_trace [ex_message ''b'' JNull]]
        (ex_scheduled [\<lambda>items. Fulfilled]))"
    by (simp add: run_def)
  show ?thesis
    using p s generation_race_no_second_flush [OF ex_scheduled_def p s r] by simp
qed

section \<open>Snapshot and clear\<close>

lemma storeMetric_samples:
  "mset (samples (storeMetric m db)) = mset (samples db) + {#m#}"
proof (cases "map_of db (aggregationKey m)")
  case None
  then show ?thesis by (simp add: storeMetric_def samples_def)
next
  case (Some ms)
  have upd: "map_of db k = Some ms \<Longrightarrow>
      mset (concat (map snd (AList.update k (ms @ [m]) db))) = mset (concat (map snd db)) + {#m#}"
    for k
    by (induction db) (auto split: if_splits)
  from Some show ?thesis by (simp add: storeMetric_def samples_def upd)
qed

lemma storeEvent_shift:
  assumes "stored a = stored b + M"
  shows "stored (storeEvent tags e a) = stored (storeEvent tags e b) + M"
  using assms by (simp add: storeEvent_def stored_def storeMetric_samples)

lemma fold_storeEvent_shift:
  "stored a = stored b + M \<Longrightarrow>
   stored (fold (storeEvent tags) es a) = stored (fold (storeEvent tags) es b) + M"
  by (induction es arbitrary: a b) (simp_all add: storeEvent_shift)

lemma addDefaultMetrics_shift:
  assumes "stored a = stored b + M" "defaultMetricsEnabled a = defaultMetricsEnabled b"
  shows "stored (addDefaultMetrics now t tags a) = stored (addDefaultMetrics now t tags b) + M"
  using assms by (simp add: addDefaultMetrics_def Let_def stored_def storeMetric_samples)

lemma processTraceItem_shift:
  assumes "stored a = stored b + M" "defaultMetricsEnabled a = defaultMetricsEnabled b"
  shows "stored (processTraceItem chan now t a) = stored (processTraceItem chan now t b) + M"
  unfolding processTraceItem_def Let_def
  by (rule fold_storeEvent_shift) (rule addDefaultMetrics_shift [OF assms])

lemma ingest_shift:
  "stored a = stored b + M \<Longrightarrow> defaultMetricsEnabled a = defaultMetricsEnabled b \<Longrightarrow>
   stored (ingest chan now ts a) = stored (ingest chan now ts b) + M"
  unfolding ingest_def
  by (induction ts arbitrary: a b) (simp_all add: processTraceItem_shift processTraceItem_frame)

lemma ingest_stored: "stored (ingest chan now ts this) = stored this + batch chan now ts this"
proof -
  have "stored this = stored (this\<lparr> metrics := new_MetricsDb \<rparr>) + stored this"
    by (simp add: stored_def new_MetricsDb_def samples_def)
  then have "stored (ingest chan now ts this) =
      stored (ingest chan now ts (this\<lparr> metrics := new_MetricsDb \<rparr>)) + stored this"
    by (rule ingest_shift) simp
  then show ?thesis by (simp add: batch_def)
qed

lemma performFlush_account:
  "flushed (performFlush this) = flushed this + stored this" "stored (performFlush this) = {#}"
  by (simp_all add: flushed_def stored_def performFlush_frame toMetricPayloads_def
        new_MetricsDb_def samples_def)

lemma ingest_flushed: "flushed (ingest chan now ts this) = flushed this"
  by (simp add: flushed_def ingest_frame)

lemma batch_performFlush: "batch chan now ts (performFlush this) = batch chan now ts this"
proof -
  have "stored (ingest chan now ts ((performFlush this)\<lparr> metrics := new_MetricsDb \<rparr>)) =
        stored (ingest chan now ts (this\<lparr> metrics := new_MetricsDb \<rparr>)) + {#}"
    by (rule ingest_shift) (simp_all add: stored_def performFlush_frame)
  then show ?thesis by (simp add: batch_def)
qed

lemma processTraceItems_account:
  "flushed (processTraceItems chan now ts this) + stored (processTraceItems chan now ts this) =
   flushed this + stored this + batch chan now ts this"
proof -
  have s: "stored (x\<lparr> flushId := n \<rparr>) = stored x" "stored (x\<lparr> flushScheduled := b \<rparr>) = stored x"
          "flushed (x\<lparr> flushId := n \<rparr>) = flushed x" "flushed (x\<lparr> flushScheduled := b \<rparr>) = flushed x"
          "stored (scheduleFlush x) = stored x" "flushed (scheduleFlush x) = flushed x" for x n b
    by (simp_all add: stored_def flushed_def scheduleFlush_def Let_def)
  show ?thesis
    by (simp add: processTraceItems_def Let_def performFlush_account s ingest_stored ingest_flushed)
qed

lemma step_account:
  "flushed (step chan e this) + stored (step chan e this) =
   flushed this + stored this + ingested chan [e] this"
proof (cases e)
  case (ProcessTraceItems ts now)
  then show ?thesis by (simp add: processTraceItems_account)
next
  case (TimerCompletes g)
  have s: "stored (x\<lparr> timers := n \<rparr>) = stored x" "flushed (x\<lparr> timers := n \<rparr>) = flushed x" for x n
    by (simp_all add: stored_def flushed_def)
  show ?thesis unfolding TimerCompletes
    by (simp add: timerCompletes_def Let_def performFlush_account s)
next
  case (TimerRejects g)
  then show ?thesis by (simp add: timerRejects_def stored_def flushed_def)
qed

lemma ingested_Cons:
  "ingested chan (e # es) this = ingested chan [e] this + ingested chan es (step chan e this)"
  by (cases e) simp_all

lemma run_account:
  "flushed (run chan es this) + stored (run chan es this) =
   flushed this + stored this + ingested chan es this"
proof (induction es arbitrary: this)
  case Nil
  show ?case by (simp add: run_def)
next
  case (Cons e es)
  have "flushed (run chan (e # es) this) + stored (run chan (e # es) this) =
        flushed (run chan es (step chan e this)) + stored (run chan es (step chan e this))"
    by (simp add: run_def)
  also have "\<dots> = flushed (step chan e this) + stored (step chan e this) +
      ingested chan es (step chan e this)"
    by (rule Cons.IH)
  also have "\<dots> = flushed this + stored this + ingested chan [e] this +
      ingested chan es (step chan e this)"
    by (simp add: step_account)
  also have "\<dots> = flushed this + stored this + ingested chan (e # es) this"
    by (simp add: ingested_Cons [of chan e es] add.assoc)
  finally show ?case .
qed

text \<open>
  Claim C2. \<^verbatim>\<open>#performFlush\<close> takes its snapshot and clears the store in one step, with
  nothing in between: the snapshot is the export of the store as it stands and holds
  every event stored since the last clear, once; the store is a fresh one afterwards, so
  the events of a later call are all that the next window holds. Over any sequence of
  calls and timers from the constructor on, every event handed to \<^verbatim>\<open>storeMetric\<close> is in
  exactly one place: the snapshot of one flush, or the store.
\<close>

theorem snapshot_and_clear_is_one_step:
  "flushes (performFlush this) = flushes this @ [toMetricPayloads (metrics this)] \<and>
   mset (samples (toMetricPayloads (metrics this))) = stored this \<and>
   metrics (performFlush this) = new_MetricsDb \<and>
   stored (performFlush this) = {#} \<and>
   stored (ingest chan now traceItems (performFlush this)) = batch chan now traceItems this \<and>
   flushed (run chan es (new_MetricsTail options)) + stored (run chan es (new_MetricsTail options)) =
     ingested chan es (new_MetricsTail options)"
proof -
  have next_window:
    "stored (ingest chan now traceItems (performFlush this)) = batch chan now traceItems this"
    by (simp add: ingest_stored performFlush_account batch_performFlush)
  have "flushed (new_MetricsTail options) = {#}" "stored (new_MetricsTail options) = {#}"
    by (simp_all add: flushed_def stored_def new_MetricsTail_def new_MetricsDb_def samples_def)
  then have all_events: "flushed (run chan es (new_MetricsTail options)) +
      stored (run chan es (new_MetricsTail options)) = ingested chan es (new_MetricsTail options)"
    by (simp add: run_account)
  have snapshot: "mset (samples (toMetricPayloads (metrics this))) = stored this"
    by (simp add: stored_def toMetricPayloads_def)
  show ?thesis
    using next_window all_events snapshot
    by (simp add: performFlush_frame performFlush_account)
qed

text \<open>On the example: after the scheduled flush of the one stored metric the store is
  empty, and the snapshot holds that one event.\<close>

theorem snapshot_and_clear_is_one_step_witness:
  "size (stored (ex_scheduled [])) = 1 \<and>
   mset (samples (toMetricPayloads (metrics (ex_scheduled [])))) = stored (ex_scheduled []) \<and>
   stored (performFlush (ex_scheduled [])) = {#} \<and>
   flushes (performFlush (ex_scheduled [])) = [toMetricPayloads (metrics (ex_scheduled []))]"
proof -
  have "size (stored (ex_scheduled [])) = 1"
    by (simp add: stored_def samples_def ex_scheduled_def ex_eval)
  then show ?thesis
    using snapshot_and_clear_is_one_step [of "ex_scheduled []" "''metrics''" ex_now "[]" "[]" "ex_options []"]
    by (simp add: ex_scheduled_host)
qed

section \<open>The size trigger\<close>

lemma callSinks_no_throw:
  "\<forall>sink\<in>set sinks. \<forall>e. sink items \<noteq> Throws e \<Longrightarrow>
   callSinks sinks items = (length sinks, map (\<lambda>sink. sink items) sinks, None)"
  by (induction sinks) (auto split: sink_result.splits)

lemma performFlush_calls:
  "sendMetrics_calls (performFlush this) =
     sendMetrics_calls this @
     (if toMetricPayloads (metrics this) = [] then []
      else map (\<lambda>i. (i, toMetricPayloads (metrics this)))
             [0..<fst (callSinks (metricSinks this) (toMetricPayloads (metrics this)))])"
proof (cases "toMetricPayloads (metrics this) = []")
  case True
  then show ?thesis by (simp add: performFlush_def)
next
  case False
  obtain n rs t where c: "callSinks (metricSinks this) (toMetricPayloads (metrics this)) = (n, rs, t)"
    by (cases "callSinks (metricSinks this) (toMetricPayloads (metrics this))") auto
  from False c show ?thesis
    by (cases t) (simp_all add: performFlush_def Let_def split: option.splits)
qed

lemma size_trigger_nonempty:
  assumes "sizeTrigger chan now traceItems this" "maxBufferSize this = Finite r" "0 < r"
  shows "toMetricPayloads (metrics (ingest chan now traceItems this)) \<noteq> []"
  using assms
  by (auto simp: sizeTrigger_def Let_def ingest_frame getMetricCount_def toMetricPayloads_def)

text \<open>
  Claim C3. When the store holds at least \<^verbatim>\<open>maxBufferSize\<close> distinct metrics after a
  batch, \<^verbatim>\<open>processTraceItems\<close> flushes exactly once, at once, whether or not a flush was
  scheduled: one snapshot is taken, of the store as the batch left it, and with a
  threshold above zero it is not empty; the sinks are called with it, once each and in
  order, as far as the \<^verbatim>\<open>map\<close> over them gets, which is all of them when none throws; the
  generation goes up by one, so no timer armed for a generation up to the old one is live
  any more; no timer is armed; the flag is down; and the store's count is 0.
\<close>

theorem size_trigger_one_immediate_flush:
  assumes size: "sizeTrigger chan now traceItems this"
    and result: "this' = processTraceItems chan now traceItems this"
    and snapshot: "items = toMetricPayloads (metrics (ingest chan now traceItems this))"
  shows "flushes this' = flushes this @ [items] \<and>
         getMetricCount (metrics this') = 0 \<and>
         flushId this' = flushId this + 1 \<and>
         \<not> flushScheduled this' \<and>
         timers this' = timers this \<and>
         (\<forall>t\<in>set (timers this). fst t \<le> flushId this \<longrightarrow> fst t \<noteq> flushId this') \<and>
         sendMetrics_calls this' =
           sendMetrics_calls this @
           (if items = [] then []
            else map (\<lambda>i. (i, items)) [0..<fst (callSinks (metricSinks this) items)]) \<and>
         (items \<noteq> [] \<and> (\<forall>sink\<in>set (metricSinks this). \<forall>e. sink items \<noteq> Throws e) \<longrightarrow>
            sendMetrics_calls this' =
              sendMetrics_calls this @ map (\<lambda>i. (i, items)) [0..<length (metricSinks this)]) \<and>
         (\<forall>r. maxBufferSize this = Finite r \<and> 0 < r \<longrightarrow> items \<noteq> [])"
proof -
  let ?bumped =
    "(ingest chan now traceItems this)\<lparr> flushScheduled := False, flushId := flushId this + 1 \<rparr>"
  have eq: "this' = performFlush ?bumped"
    unfolding result using size by (rule processTraceItems_trigger)
  have calls: "sendMetrics_calls this' =
      sendMetrics_calls this @
      (if items = [] then []
       else map (\<lambda>i. (i, items)) [0..<fst (callSinks (metricSinks this) items)])"
    using performFlush_calls [of ?bumped] unfolding eq snapshot by (simp add: ingest_frame)
  have all: "sendMetrics_calls this' =
      sendMetrics_calls this @ map (\<lambda>i. (i, items)) [0..<length (metricSinks this)]"
    if "items \<noteq> []" "\<forall>sink\<in>set (metricSinks this). \<forall>e. sink items \<noteq> Throws e"
    using that calls callSinks_no_throw [of "metricSinks this" items] by simp
  have nonempty: "items \<noteq> []" if "maxBufferSize this = Finite r" "0 < r" for r
    unfolding snapshot using size that by (rule size_trigger_nonempty)
  have "flushes this' = flushes this @ [items]" "getMetricCount (metrics this') = 0"
       "flushId this' = flushId this + 1" "\<not> flushScheduled this'" "timers this' = timers this"
    unfolding eq snapshot
    by (simp_all add: performFlush_frame ingest_frame getMetricCount_def new_MetricsDb_def)
  with calls all nonempty show ?thesis by simp
qed

text \<open>On the example, with two sinks and a flush scheduled for generation 1: the second
  metric fills the buffer, one snapshot is taken and both sinks are called with it.\<close>

theorem size_trigger_one_immediate_flush_witness:
  "sizeTrigger ''metrics'' ex_now [ex_trace [ex_message ''b'' JNull]]
     (ex_scheduled [\<lambda>items. Fulfilled, \<lambda>items. Rejected (ErrorObj ''boom'')]) \<and>
   flushScheduled (ex_scheduled [\<lambda>items. Fulfilled, \<lambda>items. Rejected (ErrorObj ''boom'')]) \<and>
   length (flushes (processTraceItems ''metrics'' ex_now [ex_trace [ex_message ''b'' JNull]]
      (ex_scheduled [\<lambda>items. Fulfilled, \<lambda>items. Rejected (ErrorObj ''boom'')]))) = 1 \<and>
   map fst (sendMetrics_calls (processTraceItems ''metrics'' ex_now [ex_trace [ex_message ''b'' JNull]]
      (ex_scheduled [\<lambda>items. Fulfilled, \<lambda>items. Rejected (ErrorObj ''boom'')]))) = [0, 1] \<and>
   getMetricCount (metrics (processTraceItems ''metrics'' ex_now [ex_trace [ex_message ''b'' JNull]]
      (ex_scheduled [\<lambda>items. Fulfilled, \<lambda>items. Rejected (ErrorObj ''boom'')]))) = 0 \<and>
   flushId (processTraceItems ''metrics'' ex_now [ex_trace [ex_message ''b'' JNull]]
      (ex_scheduled [\<lambda>items. Fulfilled, \<lambda>items. Rejected (ErrorObj ''boom'')])) = 2 \<and>
   timers (processTraceItems ''metrics'' ex_now [ex_trace [ex_message ''b'' JNull]]
      (ex_scheduled [\<lambda>items. Fulfilled, \<lambda>items. Rejected (ErrorObj ''boom'')])) =
     [(1, Finite 5000)]"
proof -
  let ?sinks = "[\<lambda>items. Fulfilled, \<lambda>items. Rejected (ErrorObj ''boom'')] :: MetricSink list"
  let ?items = "toMetricPayloads (metrics (ingest ''metrics'' ex_now
      [ex_trace [ex_message ''b'' JNull]] (ex_scheduled ?sinks)))"
  have h: "sizeTrigger ''metrics'' ex_now [ex_trace [ex_message ''b'' JNull]] (ex_scheduled ?sinks)"
    by (rule ex_second_metric_triggers)
  have m: "maxBufferSize (ex_scheduled ?sinks) = Finite 2"
    by (simp add: ex_scheduled_def ex_eval)
  have a: "\<forall>sink\<in>set (metricSinks (ex_scheduled ?sinks)). \<forall>e. sink ?items \<noteq> Throws e"
    by (simp add: ex_scheduled_host)
  have u: "[0..<2] = [0, 1]" by (simp add: upt_rec)
  show ?thesis
    using h m a size_trigger_one_immediate_flush [OF h refl refl]
      ex_scheduled_timers [of ?sinks] ex_scheduled_state [of ?sinks]
    by (simp add: ex_scheduled_host u comp_def)
qed

section \<open>Coalescing\<close>

lemma one_timer_step:
  assumes "one_timer this" "noSizeTrigger chan [e] this"
  shows "one_timer (step chan e this)"
proof (cases e)
  case (ProcessTraceItems items now)
  with assms(2) have ns: "\<not> sizeTrigger chan now items this" by simp
  from assms(1) show ?thesis
    unfolding ProcessTraceItems one_timer_def
    by (auto simp: processTraceItems_timers processTraceItems_flushId
          processTraceItems_flushScheduled ns split: list.splits)
next
  case (TimerCompletes g)
  from assms(1) show ?thesis
    unfolding TimerCompletes one_timer_def
    by (auto simp: timerCompletes_def Let_def performFlush_frame split: list.splits if_splits)
next
  case (TimerRejects g)
  from assms(1) show ?thesis
    unfolding TimerRejects one_timer_def
    by (auto simp: timerRejects_def split: list.splits if_splits)
qed

lemma noSizeTrigger_Cons:
  "noSizeTrigger chan (e # es) this =
     (noSizeTrigger chan [e] this \<and> noSizeTrigger chan es (step chan e this))"
  by (cases e) simp_all

lemma one_timer_run:
  "one_timer this \<Longrightarrow> noSizeTrigger chan es this \<Longrightarrow> one_timer (run chan es this)"
proof (induction es arbitrary: this)
  case Nil
  then show ?case by (simp add: run_def)
next
  case (Cons e es)
  from Cons.prems(2)
  have a: "noSizeTrigger chan [e] this" "noSizeTrigger chan es (step chan e this)"
    by (simp_all add: noSizeTrigger_Cons [of chan e es])
  have "one_timer (step chan e this)" using Cons.prems(1) a(1) by (rule one_timer_step)
  then have "one_timer (run chan es (step chan e this))" using a(2) by (rule Cons.IH)
  then show ?case by (simp add: run_def)
qed

lemma one_timer_length: "one_timer this \<Longrightarrow> length (timers this) \<le> 1"
  by (auto simp: one_timer_def split: list.splits)

text \<open>
  Claim C4. A call of \<^verbatim>\<open>processTraceItems\<close> arms a timer only when it stays below the
  size threshold, no flush is scheduled and the store is not empty; the timer then
  carries the generation after the increment and waits \<^verbatim>\<open>maxBufferDuration\<close> seconds
  (times 1000, in milliseconds). Below the threshold with a flush scheduled, the call only
  ingests. And over any sequence of calls below the threshold, with timers completing or
  failing in between, at most one timer is pending at any time.
\<close>

theorem scheduler_coalescing:
  "timers (processTraceItems chan now traceItems this) =
     (if \<not> sizeTrigger chan now traceItems this \<and> \<not> flushScheduled this \<and>
         0 < getMetricCount (metrics (ingest chan now traceItems this))
      then timers this @ [(flushId this + 1, times_1000 (maxBufferDuration this))]
      else timers this) \<and>
   (\<not> sizeTrigger chan now traceItems this \<and> flushScheduled this \<longrightarrow>
      processTraceItems chan now traceItems this = ingest chan now traceItems this) \<and>
   (timers (processTraceItems chan now traceItems this) \<noteq> timers this \<longrightarrow>
      flushId (processTraceItems chan now traceItems this) = flushId this + 1 \<and>
      flushScheduled (processTraceItems chan now traceItems this)) \<and>
   (noSizeTrigger chan es (new_MetricsTail options) \<longrightarrow>
      length (timers (run chan es (new_MetricsTail options))) \<le> 1)"
proof -
  have coalesce: "processTraceItems chan now traceItems this = ingest chan now traceItems this"
    if "\<not> sizeTrigger chan now traceItems this" "flushScheduled this"
    using that by (simp add: processTraceItems_def sizeTrigger_def Let_def ingest_frame)
  have armed: "flushId (processTraceItems chan now traceItems this) = flushId this + 1 \<and>
      flushScheduled (processTraceItems chan now traceItems this)"
    if "timers (processTraceItems chan now traceItems this) \<noteq> timers this"
    using that
    by (simp add: processTraceItems_timers processTraceItems_flushId
          processTraceItems_flushScheduled split: if_splits)
  have "one_timer (new_MetricsTail options)"
    by (simp add: one_timer_def new_MetricsTail_def)
  then have runs: "length (timers (run chan es (new_MetricsTail options))) \<le> 1"
    if "noSizeTrigger chan es (new_MetricsTail options)"
    using that by (intro one_timer_length one_timer_run)
  show ?thesis
    using coalesce armed runs by (simp add: processTraceItems_timers)
qed

text \<open>On the example: the same metric twice stays below the buffer of two; the second
  call finds the flush scheduled and arms nothing.\<close>

theorem scheduler_coalescing_witness:
  "noSizeTrigger ''metrics''
     [ProcessTraceItems [ex_trace [ex_message ''a'' JNull]] ex_now,
      ProcessTraceItems [ex_trace [ex_message ''a'' JNull]] ex_now]
     (new_MetricsTail (ex_options [])) \<and>
   length (timers (run ''metrics''
     [ProcessTraceItems [ex_trace [ex_message ''a'' JNull]] ex_now,
      ProcessTraceItems [ex_trace [ex_message ''a'' JNull]] ex_now]
     (new_MetricsTail (ex_options [])))) \<le> 1 \<and>
   \<not> sizeTrigger ''metrics'' ex_now [ex_trace [ex_message ''a'' JNull]] (ex_scheduled []) \<and>
   flushScheduled (ex_scheduled []) \<and>
   timers (processTraceItems ''metrics'' ex_now [ex_trace [ex_message ''a'' JNull]] (ex_scheduled [])) =
     timers (ex_scheduled [])"
proof -
  have s: "\<not> sizeTrigger ''metrics'' ex_now [ex_trace [ex_message ''a'' JNull]] (ex_scheduled [])"
    by (rule ex_same_metric_coalesces)
  have n: "noSizeTrigger ''metrics''
     [ProcessTraceItems [ex_trace [ex_message ''a'' JNull]] ex_now,
      ProcessTraceItems [ex_trace [ex_message ''a'' JNull]] ex_now]
     (new_MetricsTail (ex_options []))"
    using s by (simp add: ex_scheduled_def) (simp add: ex_eval)
  have f: "flushScheduled (ex_scheduled [])" by (simp add: ex_scheduled_state)
  show ?thesis
    using s n f
      scheduler_coalescing [of "''metrics''" ex_now "[ex_trace [ex_message ''a'' JNull]]"
        "ex_scheduled []"
        "[ProcessTraceItems [ex_trace [ex_message ''a'' JNull]] ex_now,
          ProcessTraceItems [ex_trace [ex_message ''a'' JNull]] ex_now]" "ex_options []"]
    by (simp add: ingest_frame)
qed

section \<open>The fanout to the sinks\<close>

lemma sinkErrors_printable:
  "Unprintable \<notin> set es \<Longrightarrow> sinkErrors es = Some (map (\<lambda>e. the (reason_text e)) es)"
proof (induction es)
  case Nil
  show ?case by simp
next
  case (Cons e es)
  then show ?case by (cases e) simp_all
qed

text \<open>What the fanout does when every sink fails, if at all, by rejecting the promise
  it returns, and every reason can be made a string: each sink is called once, in order,
  with the snapshot, and for one or more rejections one line is written, with their
  number and their texts.\<close>

lemma rejections_are_isolated:
  assumes snapshot: "items = toMetricPayloads (metrics this)"
    and nonempty: "items \<noteq> []"
    and async: "\<forall>sink\<in>set (metricSinks this). \<forall>e. sink items \<noteq> Throws e"
    and reasons: "reasons = concat (map rejection (map (\<lambda>sink. sink items) (metricSinks this)))"
    and printable: "Unprintable \<notin> set reasons"
  shows "sendMetrics_calls (performFlush this) =
           sendMetrics_calls this @ map (\<lambda>i. (i, items)) [0..<length (metricSinks this)] \<and>
         console (performFlush this) =
           console this @
           (if reasons = [] then []
            else [ConsoleError (failed_to_flush (length reasons)
                    (map (\<lambda>e. the (reason_text e)) reasons))])"
proof -
  define rs where "rs = map (\<lambda>sink. sink items) (metricSinks this)"
  have c: "callSinks (metricSinks this) items = (length (metricSinks this), rs, None)"
    unfolding rs_def using async by (rule callSinks_no_throw)
  have r: "concat (map rejection (filter is_rejected xs)) = concat (map rejection xs)" for xs
    by (induction xs) (auto elim: is_rejected.elims rejection.elims)
  have l: "length (filter is_rejected xs) = length (concat (map rejection xs))" for xs
  proof (induction xs)
    case Nil
    show ?case by simp
  next
    case (Cons x xs)
    then show ?case by (cases x) simp_all
  qed
  have reasons': "reasons = concat (map rejection rs)"
    unfolding reasons rs_def ..
  have n: "length (filter is_rejected rs) = length reasons"
    unfolding reasons' by (rule l)
  have f: "concat (map rejection (filter is_rejected rs)) = reasons"
    unfolding reasons' by (rule r)
  have p: "sinkErrors reasons = Some (map (\<lambda>e. the (reason_text e)) reasons)"
    using printable by (rule sinkErrors_printable)
  have c': "callSinks (metricSinks this) (toMetricPayloads (metrics this)) =
      (length (metricSinks this), rs, None)"
    using c by (simp add: snapshot)
  have ne: "toMetricPayloads (metrics this) \<noteq> []"
    using nonempty by (simp add: snapshot)
  have z: "filter is_rejected rs = [] \<longleftrightarrow> reasons = []"
    using n by (metis length_0_conv)
  show ?thesis
    unfolding snapshot using ne
    by (simp add: performFlush_def Let_def c' n f p z)
qed

text \<open>Three sinks, the second of which rejects.\<close>

lemma rejections_are_isolated_example:
  "map fst (sendMetrics_calls (performFlush (ex_scheduled
     [\<lambda>items. Fulfilled, \<lambda>items. Rejected (ErrorObj ''boom''), \<lambda>items. Fulfilled]))) = [0, 1, 2] \<and>
   console (performFlush (ex_scheduled
     [\<lambda>items. Fulfilled, \<lambda>items. Rejected (ErrorObj ''boom''), \<lambda>items. Fulfilled])) =
     [ConsoleError ''Failed to flush metrics to 1 sink(s): boom'']"
proof -
  let ?sinks = "[\<lambda>items. Fulfilled, \<lambda>items. Rejected (ErrorObj ''boom''), \<lambda>items. Fulfilled]
    :: MetricSink list"
  have a: "\<forall>sink\<in>set (metricSinks (ex_scheduled ?sinks)). \<forall>e.
      sink (toMetricPayloads (metrics (ex_scheduled ?sinks))) \<noteq> Throws e"
    by (simp add: ex_scheduled_host)
  have p: "Unprintable \<notin> set (concat (map rejection (map (\<lambda>sink. sink
      (toMetricPayloads (metrics (ex_scheduled ?sinks)))) (metricSinks (ex_scheduled ?sinks)))))"
    by (simp add: ex_scheduled_host)
  have u: "[0..<3] = [0, 1, 2]" by (simp add: upt_rec)
  show ?thesis
    using rejections_are_isolated [OF refl ex_items_nonempty a refl p]
    by (simp add: ex_scheduled_host failed_to_flush_def string_of_nat_1 u comp_def)
qed

text \<open>
  Claim C5, at the input where the code departs from it. The store is not empty and the
  first of two sinks throws before it returns a promise: the \<^verbatim>\<open>map\<close> over the sinks ends
  there, the second sink is never called, and the console gets the line of the outer
  \<^verbatim>\<open>catch\<close> in place of the combined report.
\<close>

theorem sync_throw_stops_fanout:
  "toMetricPayloads (metrics (ex_scheduled
     [\<lambda>items. Throws (ErrorObj ''boom''), \<lambda>items. Fulfilled])) \<noteq> [] \<and>
   length (metricSinks (ex_scheduled
     [\<lambda>items. Throws (ErrorObj ''boom''), \<lambda>items. Fulfilled])) = 2 \<and>
   map fst (sendMetrics_calls (performFlush (ex_scheduled
     [\<lambda>items. Throws (ErrorObj ''boom''), \<lambda>items. Fulfilled]))) = [0] \<and>
   console (performFlush (ex_scheduled
     [\<lambda>items. Throws (ErrorObj ''boom''), \<lambda>items. Fulfilled])) =
     [ConsoleErrorWith ''Error flushing batch:'' (ErrorObj ''boom'')]"
proof -
  let ?sinks = "[\<lambda>items. Throws (ErrorObj ''boom''), \<lambda>items. Fulfilled] :: MetricSink list"
  show ?thesis
    using ex_items_nonempty [of ?sinks]
    by (simp add: performFlush_def Let_def ex_scheduled_host clearAll_def)
qed

theorem sync_throw_stops_fanout_witness:
  "1 \<notin> set (map fst (sendMetrics_calls (performFlush (ex_scheduled
     [\<lambda>items. Throws (ErrorObj ''boom''), \<lambda>items. Fulfilled]))))"
  using sync_throw_stops_fanout by simp

text \<open>The combined report is lost in the same way when a sink rejects with a reason
  that cannot be made a string: both sinks are called, the template throws, and the outer
  \<^verbatim>\<open>catch\<close> writes its line.\<close>

lemma unprintable_reason_loses_report:
  "map fst (sendMetrics_calls (performFlush (ex_scheduled
     [\<lambda>items. Rejected Unprintable, \<lambda>items. Fulfilled]))) = [0, 1] \<and>
   console (performFlush (ex_scheduled [\<lambda>items. Rejected Unprintable, \<lambda>items. Fulfilled])) =
     [ConsoleErrorWith ''Error flushing batch:'' conversion_TypeError]"
proof -
  let ?sinks = "[\<lambda>items. Rejected Unprintable, \<lambda>items. Fulfilled] :: MetricSink list"
  have u: "[0..<2] = [0, 1]" by (simp add: upt_rec)
  show ?thesis
    using ex_items_nonempty [of ?sinks]
    by (simp add: performFlush_def Let_def ex_scheduled_host clearAll_def u comp_def)
qed

section \<open>The empty flush\<close>

text \<open>
  Claim C6. When \<^verbatim>\<open>#performFlush\<close> runs and the snapshot it exports from the store has no
  entry, it calls no sink and writes nothing to the console.
\<close>

theorem empty_flush_calls_no_sink:
  assumes "length (toMetricPayloads (metrics this)) = 0"
  shows "sendMetrics_calls (performFlush this) = sendMetrics_calls this \<and>
         console (performFlush this) = console this"
  using assms by (simp add: performFlush_def Let_def)

text \<open>A flush of the tail as constructed, with one sink.\<close>

theorem empty_flush_calls_no_sink_witness:
  "length (toMetricPayloads (metrics (new_MetricsTail (ex_options [\<lambda>items. Fulfilled])))) = 0 \<and>
   length (metricSinks (new_MetricsTail (ex_options [\<lambda>items. Fulfilled]))) = 1 \<and>
   sendMetrics_calls (performFlush (new_MetricsTail (ex_options [\<lambda>items. Fulfilled]))) = [] \<and>
   console (performFlush (new_MetricsTail (ex_options [\<lambda>items. Fulfilled]))) = []"
proof -
  have e: "length (toMetricPayloads (metrics (new_MetricsTail (ex_options [\<lambda>items. Fulfilled])))) = 0"
    by (simp add: new_MetricsTail_def toMetricPayloads_def new_MetricsDb_def)
  from empty_flush_calls_no_sink [OF e] e show ?thesis
    by (simp add: new_MetricsTail_def ex_options_def)
qed

section \<open>The validity filter\<close>

lemma typeof_number: "typeof v = ''number'' \<longleftrightarrow> (\<exists>x. v = JNum x)"
  by (cases v) simp_all

lemma typeof_string: "typeof v = ''string'' \<longleftrightarrow> (\<exists>s. v = JStr s)"
  by (cases v) simp_all

lemma typeof_object:
  "typeof v = ''object'' \<longleftrightarrow> v = JNull \<or> (\<exists>xs. v = JArr xs) \<or> (\<exists>fs. v = JObj fs)"
  by (cases v) simp_all

text \<open>A message that fails the check is not stored: a warning is written and the loop
  goes on with the tail otherwise unchanged.\<close>

lemma invalid_message_dropped:
  "\<not> isValidMetric (message event) \<Longrightarrow>
   storeEvent tags event this =
     this\<lparr> console := console this @
             [ConsoleWarn ''Received invalid metric payload:'' (message event)] \<rparr>"
  by (simp add: storeEvent_def)

lemma valid_message_stored:
  "isValidMetric (message event) \<Longrightarrow>
   storeEvent tags event this =
     this\<lparr> metrics := storeMetric (storedMetric tags event) (metrics this) \<rparr>"
  by (simp add: storeEvent_def)

text \<open>What the check ensures of a message it accepts: a type among the three, a number
  as value, a string as name, and tags whose \<^verbatim>\<open>typeof\<close> is \<^verbatim>\<open>"object"\<close>, which an object,
  an array and \<^verbatim>\<open>null\<close> all have.\<close>

lemma isValidMetric_fields:
  assumes "isValidMetric m"
  shows "js_get m ''type'' \<in> MetricType_value ` {COUNT, GAUGE, HISTOGRAM} \<and>
         (\<exists>x. js_get m ''value'' = JNum x) \<and> (\<exists>s. js_get m ''name'' = JStr s) \<and>
         (js_get m ''tags'' = JNull \<or> (\<exists>xs. js_get m ''tags'' = JArr xs) \<or>
          (\<exists>fs. js_get m ''tags'' = JObj fs))"
proof -
  from assms have "List.member MetricType_values (js_get m ''type'')"
    and "typeof (js_get m ''value'') = ''number''"
    and "typeof (js_get m ''name'') = ''string''"
    and "typeof (js_get m ''tags'') = ''object''"
    by (auto simp: isValidMetric_def split: if_splits)
  then show ?thesis
    by (simp add: typeof_number typeof_string typeof_object MetricType_values_def)
qed

text \<open>
  Claim C7, at the input where the code departs from it. A message whose tags are
  \<^verbatim>\<open>null\<close>, or an array, passes \<^verbatim>\<open>isValidMetric\<close>, since \<^verbatim>\<open>typeof\<close> gives \<^verbatim>\<open>"object"\<close> for
  both; the message with \<^verbatim>\<open>null\<close> tags is stored, with the tags of the trace alone, and
  no warning is written.
\<close>

theorem null_tags_pass_the_validity_check:
  "isValidMetric (ex_message ''a'' JNull) \<and>
   isValidMetric (ex_message ''a'' (JArr [JStr ''x''])) \<and>
   getMetricCount (metrics (ex_scheduled [])) = 1 \<and>
   map (\<lambda>p. js_get (JObj p) ''tags'') (samples (metrics (ex_scheduled []))) =
     [JObj (globalTags (ex_trace []))] \<and>
   console (ex_scheduled []) = []"
  by (simp add: ex_scheduled_def ex_eval samples_def globalTags_def)

theorem null_tags_pass_the_validity_check_witness:
  "isValidMetric (ex_message ''a'' JNull) \<and> js_get (ex_message ''a'' JNull) ''tags'' = JNull"
  using null_tags_pass_the_validity_check by (simp add: ex_message_def)

section \<open>The life of the generation\<close>

text \<open>
  Claim C8, as the code has it. \<^verbatim>\<open>#flushId\<close> is never decremented: no event and no
  sequence of events lowers it. A call of \<^verbatim>\<open>processTraceItems\<close> raises it by one when it
  flushes at once on the size trigger and when it schedules a flush (no flush scheduled,
  store not empty), and leaves it alone otherwise. The completion of a timer, with or
  without its flush, the failure of a timer and \<^verbatim>\<open>#performFlush\<close> itself leave it alone:
  a scheduled flush was counted when it was scheduled, not when it runs.
\<close>

theorem flushId_lifecycle:
  "flushId this \<le> flushId (step chan e this) \<and>
   flushId this \<le> flushId (run chan es this) \<and>
   flushId (processTraceItems chan now traceItems this) =
     (if sizeTrigger chan now traceItems this \<or>
         (\<not> flushScheduled this \<and> 0 < getMetricCount (metrics (ingest chan now traceItems this)))
      then flushId this + 1 else flushId this) \<and>
   flushId (timerCompletes g this) = flushId this \<and>
   flushId (timerRejects g this) = flushId this \<and>
   flushId (performFlush this) = flushId this"
  using step_flushId_mono [of this chan e] run_flushId_mono [of this chan es]
    processTraceItems_flushId [of chan now traceItems this]
  by (simp add: timerCompletes_flushId timerRejects_flushId performFlush_frame)

text \<open>On the example: scheduling raised the generation from 0 to 1, the timer's
  completion keeps it.\<close>

theorem flushId_lifecycle_witness:
  "flushId (ex_scheduled []) \<le> flushId (step ''metrics'' (TimerCompletes 1) (ex_scheduled [])) \<and>
   flushId (timerCompletes 1 (ex_scheduled [])) = 1 \<and>
   flushId (new_MetricsTail (ex_options [])) = 0 \<and>
   flushId (processTraceItems ''metrics'' ex_now [ex_trace [ex_message ''a'' JNull]]
     (new_MetricsTail (ex_options []))) = 1"
  using flushId_lifecycle [of "ex_scheduled []" "''metrics''" "TimerCompletes 1" "[]" ex_now "[]" 1]
    ex_scheduled_state [of "[]"]
  by (simp add: ex_scheduled_def run_def) (simp add: new_MetricsTail_def)

text \<open>Claim C8 as stated fails when a scheduled flush runs: the timer of generation 1
  completes, the flush takes its snapshot and calls the sink, and the generation is
  still 1.\<close>

theorem scheduled_flush_runs_without_increment:
  "flushId (ex_scheduled [\<lambda>items. Fulfilled]) = 1 \<and>
   flushes (ex_scheduled [\<lambda>items. Fulfilled]) = [] \<and>
   length (flushes (step ''metrics'' (TimerCompletes 1) (ex_scheduled [\<lambda>items. Fulfilled]))) = 1 \<and>
   map fst (sendMetrics_calls
     (step ''metrics'' (TimerCompletes 1) (ex_scheduled [\<lambda>items. Fulfilled]))) = [0] \<and>
   flushId (step ''metrics'' (TimerCompletes 1) (ex_scheduled [\<lambda>items. Fulfilled])) = 1"
  using ex_items_nonempty [of "[\<lambda>items. Fulfilled]"] ex_scheduled_timers [of "[\<lambda>items. Fulfilled]"]
    ex_scheduled_state [of "[\<lambda>items. Fulfilled]"]
  by (simp add: timerCompletes_def performFlush_def Let_def ex_scheduled_host clearAll_def)

section \<open>The constructor\<close>

text \<open>
  Claim C9, as the code has it. \<^verbatim>\<open>maxBufferSize\<close> is 100 when the option is absent, 0 or
  \<^verbatim>\<open>NaN\<close>, and the option otherwise. \<^verbatim>\<open>maxBufferDuration\<close> is 5 when the option is absent,
  0 or \<^verbatim>\<open>NaN\<close>, and otherwise the smaller of the option and 30. Each default metric is
  enabled unless its option is there and \<^verbatim>\<open>false\<close>.
\<close>

theorem constructor_defaults_and_clamp:
  "maxBufferSize (new_MetricsTail options) =
     (case opt_maxBufferSize options of
        None \<Rightarrow> Finite 100
      | Some NaN \<Rightarrow> Finite 100
      | Some (Finite n) \<Rightarrow> if n = 0 then Finite 100 else Finite n
      | Some NegInfinity \<Rightarrow> NegInfinity
      | Some Infinity \<Rightarrow> Infinity) \<and>
   maxBufferDuration (new_MetricsTail options) =
     (case opt_maxBufferDuration options of
        None \<Rightarrow> Finite 5
      | Some NaN \<Rightarrow> Finite 5
      | Some (Finite d) \<Rightarrow> if d = 0 then Finite 5 else Finite (min d 30)
      | Some NegInfinity \<Rightarrow> NegInfinity
      | Some Infinity \<Rightarrow> Finite 30) \<and>
   cpuTime_enabled (defaultMetricsEnabled (new_MetricsTail options)) =
     (case opt_defaultMetrics options of None \<Rightarrow> True | Some d \<Rightarrow> opt_cpuTime d \<noteq> Some False) \<and>
   wallTime_enabled (defaultMetricsEnabled (new_MetricsTail options)) =
     (case opt_defaultMetrics options of None \<Rightarrow> True | Some d \<Rightarrow> opt_wallTime d \<noteq> Some False) \<and>
   workersInvocation_enabled (defaultMetricsEnabled (new_MetricsTail options)) =
     (case opt_defaultMetrics options of
        None \<Rightarrow> True
      | Some d \<Rightarrow> opt_workersInvocation d \<noteq> Some False)"
  by (simp add: new_MetricsTail_def or_default_def not_false_def split: option.splits number.splits)

text \<open>The example options: a size of 2, no duration, the default metrics off; then a
  duration of 45, a duration and a size that are \<^verbatim>\<open>NaN\<close>, and no \<^verbatim>\<open>defaultMetrics\<close> at
  all.\<close>

theorem constructor_defaults_and_clamp_witness:
  "maxBufferSize (new_MetricsTail (ex_options [])) = Finite 2 \<and>
   maxBufferDuration (new_MetricsTail (ex_options [])) = Finite 5 \<and>
   \<not> cpuTime_enabled (defaultMetricsEnabled (new_MetricsTail (ex_options []))) \<and>
   maxBufferDuration (new_MetricsTail ((ex_options [])\<lparr> opt_maxBufferDuration := Some (Finite 45) \<rparr>)) =
     Finite 30 \<and>
   maxBufferDuration (new_MetricsTail ((ex_options [])\<lparr> opt_maxBufferDuration := Some NaN \<rparr>)) =
     Finite 5 \<and>
   maxBufferSize (new_MetricsTail ((ex_options [])\<lparr> opt_maxBufferSize := Some NaN \<rparr>)) =
     Finite 100 \<and>
   wallTime_enabled (defaultMetricsEnabled
     (new_MetricsTail ((ex_options [])\<lparr> opt_defaultMetrics := None \<rparr>)))"
  using constructor_defaults_and_clamp [of "ex_options []"]
    constructor_defaults_and_clamp [of "(ex_options [])\<lparr> opt_maxBufferDuration := Some (Finite 45) \<rparr>"]
    constructor_defaults_and_clamp [of "(ex_options [])\<lparr> opt_maxBufferDuration := Some NaN \<rparr>"]
    constructor_defaults_and_clamp [of "(ex_options [])\<lparr> opt_maxBufferSize := Some NaN \<rparr>"]
    constructor_defaults_and_clamp [of "(ex_options [])\<lparr> opt_defaultMetrics := None \<rparr>"]
  by (simp add: ex_options_def)

text \<open>Claim C9 as stated fails for a configured duration of 0: the minimum of 0 and 30
  is 0, the tail waits 5 seconds.\<close>

theorem zero_duration_is_not_the_minimum:
  "opt_maxBufferDuration ((ex_options [])\<lparr> opt_maxBufferDuration := Some (Finite 0) \<rparr>) =
     Some (Finite 0) \<and>
   maxBufferDuration (new_MetricsTail ((ex_options [])\<lparr> opt_maxBufferDuration := Some (Finite 0) \<rparr>)) =
     Finite 5 \<and>
   maxBufferDuration (new_MetricsTail ((ex_options [])\<lparr> opt_maxBufferDuration := Some (Finite 0) \<rparr>)) \<noteq>
     Math_min (Finite 0) (Finite 30) \<and>
   Math_min (Finite 0) (Finite 30) = Finite 0"
  by (simp add: new_MetricsTail_def or_default_def ex_options_def)

section \<open>The tags of a stored metric\<close>

lemma map_of_fold_update:
  "map_of (fold (\<lambda>(k, x). AList.update k x) ps qs) = map_of qs ++ map_of (rev ps)"
proof (induction ps arbitrary: qs)
  case Nil
  show ?case by simp
next
  case (Cons p ps)
  obtain k x where p: "p = (k, x)" by (cases p)
  have "map_of (fold (\<lambda>(k, x). AList.update k x) (p # ps) qs) =
        map_of (AList.update k x qs) ++ map_of (rev ps)"
    by (simp add: p Cons.IH)
  also have "\<dots> = map_of qs ++ map_of (rev (p # ps))"
    by (simp add: p update_conv' map_add_upd_left)
  finally show ?case .
qed

lemma map_of_rev_distinct: "distinct (map fst ps) \<Longrightarrow> map_of (rev ps) = map_of ps"
proof (induction ps)
  case Nil
  show ?case by simp
next
  case (Cons p ps)
  obtain k x where p: "p = (k, x)" by (cases p)
  from Cons.prems have fresh: "map_of ps k = None" and d: "distinct (map fst ps)"
    by (auto simp: p map_of_eq_None_iff)
  have "map_of (rev (p # ps)) = [k \<mapsto> x] ++ map_of ps"
    by (simp add: p map_of_append Cons.IH [OF d])
  also have "\<dots> = (map_of ps)(k \<mapsto> x)"
    using fresh by (auto simp: map_add_def fun_eq_iff split: option.splits)
  finally show ?case by (simp add: p)
qed

lemma objectSpread_map_of:
  "distinct (map fst (ownProps v)) \<Longrightarrow>
   map_of (objectSpread target v) = map_of target ++ map_of (ownProps v)"
  by (simp add: objectSpread_def map_of_fold_update map_of_rev_distinct)

lemma globalTags_copy: "objectSpread [] (JObj (globalTags traceItem)) = globalTags traceItem"
  by (simp add: objectSpread_def globalTags_def)

text \<open>Every event of a batch that is on the metrics channel and passes the check is
  handed to the store, as the object literal of the loop, whatever else the batch
  holds.\<close>

lemma stored_storeEvent_mono: "stored this \<subseteq># stored (storeEvent tags e this)"
  by (simp add: storeEvent_def stored_def storeMetric_samples)

lemma stored_fold_storeEvent_mono: "stored this \<subseteq># stored (fold (storeEvent tags) es this)"
proof (induction es arbitrary: this)
  case Nil
  show ?case by simp
next
  case (Cons e es)
  have "stored this \<subseteq># stored (storeEvent tags e this)" by (rule stored_storeEvent_mono)
  also have "\<dots> \<subseteq># stored (fold (storeEvent tags) es (storeEvent tags e this))" by (rule Cons.IH)
  finally show ?case by simp
qed

lemma stored_processTraceItem_mono: "stored this \<subseteq># stored (processTraceItem chan now t this)"
proof -
  have "stored this \<subseteq># stored (addDefaultMetrics now t (globalTags t) this)"
    by (simp add: addDefaultMetrics_def Let_def stored_def storeMetric_samples)
  also have "\<dots> \<subseteq># stored (processTraceItem chan now t this)"
    unfolding processTraceItem_def Let_def by (rule stored_fold_storeEvent_mono)
  finally show ?thesis .
qed

lemma stored_ingest_mono: "stored this \<subseteq># stored (ingest chan now ts this)"
  unfolding ingest_def
proof (induction ts arbitrary: this)
  case Nil
  show ?case by simp
next
  case (Cons t ts)
  have "stored this \<subseteq># stored (processTraceItem chan now t this)"
    by (rule stored_processTraceItem_mono)
  also have "\<dots> \<subseteq># stored (fold (processTraceItem chan now) ts (processTraceItem chan now t this))"
    by (rule Cons.IH)
  finally show ?case by simp
qed

lemma valid_event_stored_by_loop:
  "event \<in> set es \<Longrightarrow> isValidMetric (message event) \<Longrightarrow>
   storedMetric tags event \<in># stored (fold (storeEvent tags) es this)"
proof (induction es arbitrary: this)
  case Nil
  then show ?case by simp
next
  case (Cons e es)
  show ?case
  proof (cases "event = e")
    case True
    with Cons.prems(2) have "storedMetric tags event \<in># stored (storeEvent tags e this)"
      by (simp add: storeEvent_def stored_def storeMetric_samples)
    then have "storedMetric tags event \<in># stored (fold (storeEvent tags) es (storeEvent tags e this))"
      using stored_fold_storeEvent_mono [of "storeEvent tags e this" tags es]
      by (rule mset_subset_eqD [rotated])
    then show ?thesis by simp
  next
    case False
    with Cons.prems(1) have "event \<in> set es" by simp
    then have "storedMetric tags event \<in># stored (fold (storeEvent tags) es (storeEvent tags e this))"
      using Cons.prems(2) by (rule Cons.IH)
    then show ?thesis by simp
  qed
qed

lemma valid_event_stored_by_processTraceItem:
  assumes "event \<in> set (diagnosticsChannelEvents traceItem)" "channel event = chan"
    "isValidMetric (message event)"
  shows "storedMetric (globalTags traceItem) event \<in># stored (processTraceItem chan now traceItem this)"
proof -
  from assms(1,2)
  have "event \<in> set (filter (\<lambda>el. channel el = chan) (diagnosticsChannelEvents traceItem))"
    by simp
  then show ?thesis
    unfolding processTraceItem_def Let_def using assms(3) by (rule valid_event_stored_by_loop)
qed

lemma valid_event_stored_by_ingest:
  assumes "traceItem \<in> set traceItems" "event \<in> set (diagnosticsChannelEvents traceItem)"
    "channel event = chan" "isValidMetric (message event)"
  shows "storedMetric (globalTags traceItem) event \<in># stored (ingest chan now traceItems this)"
  using assms(1) unfolding ingest_def
proof (induction traceItems arbitrary: this)
  case Nil
  then show ?case by simp
next
  case (Cons t ts)
  show ?case
  proof (cases "traceItem = t")
    case True
    have "storedMetric (globalTags traceItem) event \<in># stored (processTraceItem chan now t this)"
      unfolding True [symmetric] using assms(2-4) by (rule valid_event_stored_by_processTraceItem)
    then have "storedMetric (globalTags traceItem) event \<in>#
        stored (ingest chan now ts (processTraceItem chan now t this))"
      using stored_ingest_mono [of "processTraceItem chan now t this" chan now ts]
      by (rule mset_subset_eqD [rotated])
    then show ?thesis by (simp add: ingest_def)
  next
    case False
    with Cons.prems have "traceItem \<in> set ts" by simp
    then have "storedMetric (globalTags traceItem) event \<in>#
        stored (fold (processTraceItem chan now) ts (processTraceItem chan now t this))"
      by (rule Cons.IH)
    then show ?thesis by simp
  qed
qed

text \<open>
  Claim C10. Take any trace of a batch given to \<^verbatim>\<open>processTraceItems\<close> and any event of
  it that is on the metrics channel and whose message passes \<^verbatim>\<open>isValidMetric\<close> (the keys
  of its tags being distinct, as the keys of a JavaScript object are). The metric stored
  for it is among those the batch hands to \<^verbatim>\<open>storeMetric\<close>: it is in the store after the
  loops, and after the call it is in the store or in a flush. Its timestamp is the event's,
  and its tags are an object whose keys are those of the trace's global tags (scriptName,
  executionModel, outcome, versionId, trigger) together with the event's own, and whose
  value at a key is the event's own when the event has that key, the trace's otherwise.
\<close>

theorem event_tags_override_trace_tags:
  assumes item: "traceItem \<in> set traceItems"
    and ev: "event \<in> set (diagnosticsChannelEvents traceItem)"
    and chan: "channel event = METRICS_CHANNEL_NAME"
    and valid: "isValidMetric (message event)"
    and own: "own = ownProps (js_get (message event) ''tags'')"
    and wf: "distinct (map fst own)"
    and metric: "metric = storedMetric (globalTags traceItem) event"
  shows "metric \<in># batch METRICS_CHANNEL_NAME now traceItems this \<and>
         metric \<in># stored (ingest METRICS_CHANNEL_NAME now traceItems this) \<and>
         metric \<in># flushed (processTraceItems METRICS_CHANNEL_NAME now traceItems this) +
                     stored (processTraceItems METRICS_CHANNEL_NAME now traceItems this) \<and>
         js_get (JObj metric) ''timestamp'' = JNum (timestamp event) \<and>
         (\<exists>merged.
            js_get (JObj metric) ''tags'' = JObj merged \<and>
            map_of merged = map_of (globalTags traceItem) ++ map_of own \<and>
            fst ` set merged = fst ` set (globalTags traceItem) \<union> fst ` set own) \<and>
         map fst (globalTags traceItem) =
           [''scriptName'', ''executionModel'', ''outcome'', ''versionId'', ''trigger''] \<and>
         metrics (storeEvent (globalTags traceItem) event this) =
           storeMetric metric (metrics this)"
proof -
  let ?merged = "objectSpread (objectSpread [] (JObj (globalTags traceItem)))
    (js_get (message event) ''tags'')"
  have b: "metric \<in># batch METRICS_CHANNEL_NAME now traceItems this"
    unfolding batch_def metric using item ev chan valid by (rule valid_event_stored_by_ingest)
  then have i: "metric \<in># stored (ingest METRICS_CHANNEL_NAME now traceItems this)"
    by (simp add: ingest_stored)
  from b have p: "metric \<in># flushed (processTraceItems METRICS_CHANNEL_NAME now traceItems this) +
      stored (processTraceItems METRICS_CHANNEL_NAME now traceItems this)"
    by (simp add: processTraceItems_account)
  have t: "js_get (JObj metric) ''timestamp'' = JNum (timestamp event)"
    by (simp add: metric storedMetric_def update_conv')
  have m: "map_of ?merged = map_of (globalTags traceItem) ++ map_of own"
    using wf unfolding own by (simp add: globalTags_copy objectSpread_map_of)
  have "dom (map_of ?merged) = dom (map_of (globalTags traceItem)) \<union> dom (map_of own)"
    unfolding m by auto
  then have k: "fst ` set ?merged = fst ` set (globalTags traceItem) \<union> fst ` set own"
    by (simp add: dom_map_of_conv_image_fst)
  have g: "js_get (JObj metric) ''tags'' = JObj ?merged"
    by (simp add: metric storedMetric_def update_conv')
  have e: "\<exists>merged.
      js_get (JObj metric) ''tags'' = JObj merged \<and>
      map_of merged = map_of (globalTags traceItem) ++ map_of own \<and>
      fst ` set merged = fst ` set (globalTags traceItem) \<union> fst ` set own"
    by (rule exI [of _ ?merged]) (intro conjI g m k)
  have n: "map fst (globalTags traceItem) =
      [''scriptName'', ''executionModel'', ''outcome'', ''versionId'', ''trigger'']"
    by (simp add: globalTags_def)
  have s: "metrics (storeEvent (globalTags traceItem) event this) =
      storeMetric metric (metrics this)"
    using valid by (simp add: storeEvent_def metric)
  show ?thesis
    by (intro conjI b i p t e n s)
qed

text \<open>A batch of one trace whose outcome is ok, with one event that has its own outcome
  and route: the one stored metric carries the event's outcome.\<close>

theorem event_tags_override_trace_tags_witness:
  "ex_trace [message ex_event] \<in> set [ex_trace [message ex_event]] \<and>
   ex_event \<in> set (diagnosticsChannelEvents (ex_trace [message ex_event])) \<and>
   channel ex_event = ''metrics'' \<and>
   isValidMetric (message ex_event) \<and>
   distinct (map fst (ownProps (js_get (message ex_event) ''tags''))) \<and>
   storedMetric (globalTags (ex_trace [message ex_event])) ex_event \<in>#
     stored (ingest ''metrics'' ex_now [ex_trace [message ex_event]] (new_MetricsTail (ex_options []))) \<and>
   map (\<lambda>metric. js_get (js_get (JObj metric) ''tags'') ''outcome'')
     (samples (metrics (ingest ''metrics'' ex_now [ex_trace [message ex_event]]
        (new_MetricsTail (ex_options []))))) = [JStr ''mine''] \<and>
   js_get (JObj (globalTags (ex_trace [message ex_event]))) ''outcome'' = JStr ''ok''"
proof -
  have i: "ex_trace [message ex_event] \<in> set [ex_trace [message ex_event]]" by simp
  have e: "ex_event \<in> set (diagnosticsChannelEvents (ex_trace [message ex_event]))"
    by (simp add: ex_trace_def ex_event_def)
  have c: "channel ex_event = ''metrics''" by (simp add: ex_event_def)
  have v: "isValidMetric (message ex_event)"
    by (simp add: ex_event_def ex_message_def isValidMetric_def MetricType_values_def)
  have d: "distinct (map fst (ownProps (js_get (message ex_event) ''tags'')))"
    by (simp add: ex_event_def ex_message_def)
  have o: "map (\<lambda>metric. js_get (js_get (JObj metric) ''tags'') ''outcome'')
     (samples (metrics (ingest ''metrics'' ex_now [ex_trace [message ex_event]]
        (new_MetricsTail (ex_options []))))) = [JStr ''mine'']"
    "js_get (JObj (globalTags (ex_trace [message ex_event]))) ''outcome'' = JStr ''ok''"
    by (simp_all add: ex_eval ex_event_def samples_def globalTags_def)
  from event_tags_override_trace_tags [OF i e c v refl d refl,
      of ex_now "new_MetricsTail (ex_options [])"]
  have "storedMetric (globalTags (ex_trace [message ex_event])) ex_event \<in>#
     stored (ingest ''metrics'' ex_now [ex_trace [message ex_event]] (new_MetricsTail (ex_options [])))"
    by (rule conjunct1 [OF conjunct2])
  with i e c v d o show ?thesis by (intro conjI)
qed

end
